theory Spec2Isabelle
  imports Complex_Main "HOL-Library.Multiset" "HOL-Library.Sublist"
begin

chapter \<open>The wake-up digest of get_up.py\<close>

text \<open>
  A shallow embedding of the core of \<open>get_up.py\<close>: the year progress bar, the idempotency
  gate on the comments of the tracking issue, the run that sends the digest and records
  it, the merger of the source-control activity, and the selector of historical events
  with its two providers and its pool of filler statements.

  Each Python function is a HOL function of the same name (without a leading
  underscore).  What a function reads from outside the process is an argument of the
  model: the clock, the answers of the HTTP requests, the draws of the random generator,
  and the few library functions whose result the program only passes on.  What it
  changes outside the process is returned: \<open>main\<close> maps the world before the run to the
  world after it.  Exceptions are values, and a \<open>try\<close> block is a case distinction.

  The first part of the theory holds the definitions, in the order of the source's
  layers; the second part holds the properties.
\<close>


section \<open>Python values used by get_up.py\<close>

subsection \<open>Strings\<close>

text \<open>
  A Python \<open>str\<close> is a sequence of Unicode code points; \<open>len\<close>, \<open>==\<close>, slicing and the
  \<open>re\<close> module all work on code points.  The model keeps exactly that: a string is the
  list of its code points.  \<open>asc\<close> embeds an ASCII literal.
\<close>

type_synonym ustr = "nat list"

definition asc :: "string \<Rightarrow> ustr" where
  "asc s = map of_char s"

text \<open>\<open>sep.join(xs)\<close>\<close>

fun join :: "ustr \<Rightarrow> ustr list \<Rightarrow> ustr" where
  "join sep [] = []"
| "join sep [x] = x"
| "join sep (x # y # ys) = x @ sep @ join sep (y # ys)"

text \<open>\<open>str(n)\<close> and \<open>f"{n}"\<close> for an \<open>int\<close>: decimal digits, a minus sign when negative.\<close>

function digits_of :: "nat \<Rightarrow> ustr" where
  "digits_of n = (if n < 10 then [48 + n] else digits_of (n div 10) @ [48 + n mod 10])"
  by pat_completeness auto
termination
  by (relation "measure (\<lambda>n. n)") auto

declare digits_of.simps [simp del]

definition str_int :: "int \<Rightarrow> ustr" where
  "str_int i = (if i < 0 then 45 # digits_of (nat (- i)) else digits_of (nat i))"

text \<open>
  \<open>strip_prefix p s\<close> is the rest of \<open>s\<close> after the prefix \<open>p\<close>, \<open>None\<close> when \<open>s\<close> does
  not start with \<open>p\<close>: a literal of a regular expression matched at a position.
\<close>

fun strip_prefix :: "'a list \<Rightarrow> 'a list \<Rightarrow> 'a list option" where
  "strip_prefix [] s = Some s"
| "strip_prefix (p # ps) [] = None"
| "strip_prefix (p # ps) (c # s) = (if p = c then strip_prefix ps s else None)"

lemma strip_prefix_length: "strip_prefix p s = Some r \<Longrightarrow> length r \<le> length s"
  by (induction p s rule: strip_prefix.induct) (auto split: if_splits)

subsection \<open>Floats\<close>

text \<open>
  \<open>get_year_progress\<close> divides two positive \<open>int\<close>s with \<open>/\<close>, multiplies the quotient by a
  positive \<open>int\<close> and truncates with \<open>int()\<close>.  CPython computes \<open>a / b\<close> as the IEEE 754
  binary64 number nearest to the exact quotient (ties to even), and \<open>x * k\<close> as the binary64
  number nearest to the exact product.  A positive binary64 number is modelled by the pair
  \<open>(m, e)\<close> that stands for \<open>m * 2 ^ e\<close>, with a 53 bit significand
  \<open>2 ^ 52 \<le> m \<le> 2 ^ 53\<close>.  Only positive operands in the normal range occur in the program
  (quotients between 1/366 and 1, products up to 100), so zero, signs, subnormals, infinities
  and NaN are not modelled.
\<close>

type_synonym pyfloat = "int \<times> int"

text \<open>\<open>ilog2 n\<close> is the position of the highest set bit of \<open>n \<ge> 1\<close>.\<close>

function ilog2 :: "int \<Rightarrow> int" where
  "ilog2 n = (if n < 2 then 0 else 1 + ilog2 (n div 2))"
  by pat_completeness auto
termination
  by (relation "measure (\<lambda>n. nat n)") auto

declare ilog2.simps [simp del]

text \<open>\<open>a / b\<close> rounded to the nearest integer, ties to the even one (\<open>a \<ge> 0\<close>, \<open>b > 0\<close>).\<close>

definition rne_div :: "int \<Rightarrow> int \<Rightarrow> int" where
  "rne_div a b =
     (let q = a div b; r = a mod b
      in if 2 * r < b \<or> (2 * r = b \<and> even q) then q else q + 1)"

text \<open>The binary exponent of the fraction \<open>a / b\<close>: the \<open>e\<close> with \<open>2 ^ e \<le> a / b < 2 ^ (e + 1)\<close>.\<close>

definition frac_exponent :: "int \<Rightarrow> int \<Rightarrow> int" where
  "frac_exponent a b =
     (let e0 = ilog2 a - ilog2 b
      in if (if 0 \<le> e0 then b * 2 ^ nat e0 \<le> a else b \<le> a * 2 ^ nat (- e0))
         then e0 else e0 - 1)"

text \<open>The binary64 number nearest to the exact fraction \<open>a / b\<close>, ties to even.\<close>

definition double_of_frac :: "int \<Rightarrow> int \<Rightarrow> pyfloat" where
  "double_of_frac a b =
     (let sh = frac_exponent a b - 52
      in (if 0 \<le> sh then rne_div a (b * 2 ^ nat sh) else rne_div (a * 2 ^ nat (- sh)) b, sh))"

text \<open>\<open>a / b\<close> on two \<open>int\<close>s (true division).\<close>

definition py_truediv :: "int \<Rightarrow> int \<Rightarrow> pyfloat" where
  "py_truediv a b = double_of_frac a b"

text \<open>\<open>x * k\<close> for a float \<open>x\<close> and an \<open>int\<close> \<open>k\<close> that is exactly a float (20 and 100 are).\<close>

definition py_float_mul_int :: "pyfloat \<Rightarrow> int \<Rightarrow> pyfloat" where
  "py_float_mul_int x k =
     (case x of (m, e) \<Rightarrow>
        if 0 \<le> e then double_of_frac (m * k * 2 ^ nat e) 1
        else double_of_frac (m * k) (2 ^ nat (- e)))"

text \<open>\<open>int(x)\<close>: truncation (towards zero; the operand is positive).\<close>

definition py_int_of_float :: "pyfloat \<Rightarrow> int" where
  "py_int_of_float x =
     (case x of (m, e) \<Rightarrow> if 0 \<le> e then m * 2 ^ nat e else m div 2 ^ nat (- e))"

text \<open>
  \<open>f"{x:.1f}"\<close>: the exact value of the float rounded to one decimal place, ties to even,
  printed with one digit after the point.
\<close>

definition py_format_1f :: "pyfloat \<Rightarrow> ustr" where
  "py_format_1f x =
     (case x of (m, e) \<Rightarrow>
        let tenths = (if 0 \<le> e then m * 2 ^ nat e * 10 else rne_div (m * 10) (2 ^ nat (- e)))
        in str_int (tenths div 10) @ [46] @ str_int (tenths mod 10))"

subsection \<open>Local time\<close>

text \<open>
  \<open>pendulum.now(TIMEZONE)\<close> reads the clock; the fields the program reads from the result
  are the input of the model.
\<close>

record datetime =
  dt_year :: int
  dt_month :: int
  dt_day :: int
  dt_hour :: int
  dt_day_of_year :: int

subsection \<open>Exceptions\<close>

text \<open>
  A Python exception is a value of the model.  A function that can raise returns
  \<open>exn + 'a\<close>, with \<open>Inl\<close> for the exception, and a \<open>try\<close> ... \<open>except Exception\<close> block is a case
  distinction on that result.
\<close>

datatype exn =
  KeyError | ValueError | TypeError | AttributeError | IndexError | LibraryError

text \<open>Sequencing: the second step runs on the result of the first unless the first raised.\<close>

definition and_then :: "exn + 'a \<Rightarrow> ('a \<Rightarrow> exn + 'b) \<Rightarrow> exn + 'b" where
  "and_then r f = (case r of Inl e \<Rightarrow> Inl e | Inr x \<Rightarrow> f x)"

section \<open>Time Window Resolver: \<open>get_year_progress\<close>\<close>

text \<open>
  Lines 679 to 698.  \<open>%\<close> on Python ints is the floor remainder, as \<open>mod\<close> on \<open>int\<close> is.
\<close>

definition is_leap_year :: "int \<Rightarrow> bool" where
  "is_leap_year y \<longleftrightarrow> y mod 4 = 0 \<and> (y mod 100 \<noteq> 0 \<or> y mod 400 = 0)"

definition total_days :: "int \<Rightarrow> int" where
  "total_days y = (if is_leap_year y then 366 else 365)"

definition progress_bar_width :: int where
  "progress_bar_width = 20"

definition filled_blocks :: "int \<Rightarrow> int \<Rightarrow> int" where
  "filled_blocks day_of_year tdays =
     py_int_of_float (py_float_mul_int (py_truediv day_of_year tdays) progress_bar_width)"

definition empty_blocks :: "int \<Rightarrow> int \<Rightarrow> int" where
  "empty_blocks day_of_year tdays = progress_bar_width - filled_blocks day_of_year tdays"

text \<open>
  \<open>s * n\<close> repeats a string; a negative count gives the empty string (\<open>nat\<close> of a negative
  \<open>int\<close> is 0).  U+2588 is the full block, U+2591 the light shade.
\<close>

definition progress_bar :: "int \<Rightarrow> int \<Rightarrow> ustr" where
  "progress_bar day_of_year tdays =
     replicate (nat (filled_blocks day_of_year tdays)) 9608
     @ replicate (nat (empty_blocks day_of_year tdays)) 9617"

definition progress_percent :: "int \<Rightarrow> int \<Rightarrow> pyfloat" where
  "progress_percent day_of_year tdays = py_float_mul_int (py_truediv day_of_year tdays) 100"

definition get_year_progress :: "datetime \<Rightarrow> ustr" where
  "get_year_progress now =
     (let day_of_year = dt_day_of_year now;
          tdays = total_days (dt_year now)
      in progress_bar day_of_year tdays @ asc '' ''
         @ py_format_1f (progress_percent day_of_year tdays) @ asc ''% (''
         @ str_int day_of_year @ asc ''/'' @ str_int tdays @ asc '')'')"

section \<open>Idempotency gate: \<open>get_today_get_up_status\<close>\<close>

text \<open>
  The function returns a Python value that its caller tests with \<open>if is_today:\<close>, so the
  model keeps the value and Python's truth test: \<open>False\<close> is false, an empty list or tuple
  is false, every other list or tuple is true.
\<close>

datatype pyval = PyBool bool | PyList "pyval list" | PyTuple "pyval list"

fun truthy :: "pyval \<Rightarrow> bool" where
  "truthy (PyBool b) = b"
| "truthy (PyList xs) = (xs \<noteq> [])"
| "truthy (PyTuple xs) = (xs \<noteq> [])"

text \<open>
  A comment of the tracking issue: the instant of its creation (a point on the time line,
  as a number) and its body.
\<close>

record comment =
  c_created_at :: int
  c_body :: ustr

text \<open>
  Lines 701 to 711.  \<open>comments\<close> is \<open>list(issue.get_comments())\<close>, oldest first.
  \<open>in_timezone\<close> stands for
  \<open>pendulum.instance(t).in_timezone("Asia/Shanghai")\<close>, the library's conversion of an
  instant to local calendar fields; \<open>now\<close> is what \<open>pendulum.now(TIMEZONE)\<close> returns.
  The first return statement is \<open>return False, []\<close>: a tuple of two elements.
\<close>

definition get_today_get_up_status :: "(int \<Rightarrow> datetime) \<Rightarrow> comment list \<Rightarrow> datetime \<Rightarrow> pyval" where
  "get_today_get_up_status in_timezone comments now =
     (if comments = [] then PyTuple [PyBool False, PyList []]
      else
        let latest_comment = last comments;
            latest_day = in_timezone (c_created_at latest_comment);
            is_today = (dt_day latest_day = dt_day now \<and> dt_month latest_day = dt_month now)
        in PyBool is_today)"

section \<open>The run: \<open>make_get_up_message\<close> and \<open>main\<close>\<close>

text \<open>Line 719 of \<open>make_get_up_message\<close>.\<close>

definition is_get_up_early :: "datetime \<Rightarrow> bool" where
  "is_get_up_early now \<longleftrightarrow> 3 \<le> dt_hour now \<and> dt_hour now \<le> 9"

text \<open>
  Lines 745 to 749: \<open>re.sub\<close> with the pattern
  \<^verbatim>\<open>\[([^\]]+)\]\(https://github\.com/[^\)]+\)\<close> and the replacement \<^verbatim>\<open>\1\<close>.  Both
  character classes exclude the character that must follow them, so a match at a position
  is decided without backtracking: an opening bracket (91), a non-empty run without a
  closing bracket (93), the closing bracket, the literal prefix, a non-empty run without a
  closing parenthesis (41), the closing parenthesis.
\<close>

definition match_github_link :: "ustr \<Rightarrow> (ustr \<times> ustr) option" where
  "match_github_link s =
     (case s of
        [] \<Rightarrow> None
      | c # r \<Rightarrow>
          if c \<noteq> 91 then None
          else
            let label = takeWhile (\<lambda>x. x \<noteq> 93) r;
                r1 = dropWhile (\<lambda>x. x \<noteq> 93) r
            in if label = [] \<or> r1 = [] then None
               else
                 (case strip_prefix (asc ''(https://github.com/'') (tl r1) of
                    None \<Rightarrow> None
                  | Some r2 \<Rightarrow>
                      let path = takeWhile (\<lambda>x. x \<noteq> 41) r2;
                          r3 = dropWhile (\<lambda>x. x \<noteq> 41) r2
                      in if path = [] \<or> r3 = [] then None else Some (label, tl r3)))"

lemma match_github_link_shorter:
  assumes "match_github_link s = Some (label, rest)"
  shows "length rest < length s"
proof -
  from assms obtain c r where s: "s = c # r" by (cases s) (auto simp: match_github_link_def)
  let ?r1 = "dropWhile (\<lambda>x. x \<noteq> 93) r"
  from assms s obtain r2 where
    r2: "strip_prefix (asc ''(https://github.com/'') (tl ?r1) = Some r2"
    and rest: "rest = tl (dropWhile (\<lambda>x. x \<noteq> 41) r2)"
    by (auto simp: match_github_link_def Let_def split: if_splits option.splits)
  have "length (dropWhile (\<lambda>x. x \<noteq> 41) r2) \<le> length r2"
    by (rule length_dropWhile_le)
  then have "length rest \<le> length r2"
    unfolding rest by simp
  also have "\<dots> \<le> length (tl ?r1)" using r2 by (rule strip_prefix_length)
  also have "\<dots> \<le> length ?r1" by simp
  also have "\<dots> \<le> length r" by (rule length_dropWhile_le)
  finally show ?thesis by (simp add: s)
qed

function remove_github_links :: "ustr \<Rightarrow> ustr" where
  "remove_github_links [] = []"
| "remove_github_links (c # s) =
     (case match_github_link (c # s) of
        Some (label, rest) \<Rightarrow> label @ remove_github_links rest
      | None \<Rightarrow> c # remove_github_links s)"
  by pat_completeness auto
termination
  by (relation "measure length") (auto dest: match_github_link_shorter)

text \<open>
  The world outside the process that \<open>main\<close> changes: the open issues of the repository
  in the order the tracker lists them, each with its comments, and what has been delivered
  to the two notification channels.
\<close>

record issue =
  i_title :: ustr
  i_comments :: "comment list"

record world =
  open_issues :: "issue list"
  telegram_sent :: "ustr list"
  dingtalk_sent :: "ustr list"

text \<open>The command line arguments that \<open>main\<close> reads (the token and the repository name select the tracker).\<close>

record config =
  tele_token :: ustr
  tele_chat_id :: ustr
  dingtalk_webhook :: ustr
  dingtalk_secret :: ustr

text \<open>
  What the collaborators do during one run.  A flag is \<open>False\<close> when the call raises.
  \<open>digest_body\<close> is the text that \<open>GET_UP_MESSAGE_TEMPLATE.format\<close> yields from the
  gathered fields, and \<open>markdownify\<close> the library function applied to it for Telegram;
  the clock is read once by the gate and once by \<open>make_get_up_message\<close>.
\<close>

record env =
  repo_ok :: bool
  list_issues_ok :: bool
  create_in_try_ok :: bool
  create_in_except_ok :: bool
  get_comments_ok :: bool
  telebot_ok :: bool
  telegram_ok :: bool
  dingtalk_ok :: bool
  create_comment_ok :: bool
  to_local :: "int \<Rightarrow> datetime"
  now_gate :: datetime
  now_message :: datetime
  comment_stamp :: int
  digest_body :: ustr
  markdownify :: "ustr \<Rightarrow> ustr"

datatype run_end = Crashed | NoIssue | AlreadyRecorded | WokeLate | Recorded

text \<open>Lines 766 to 769: the first open issue whose title is \<open>GET UP\<close>.\<close>

fun find_get_up :: "issue list \<Rightarrow> nat \<Rightarrow> nat option" where
  "find_get_up [] k = None"
| "find_get_up (i # is) k = (if i_title i = asc ''GET UP'' then Some k else find_get_up is (Suc k))"

text \<open>
  Lines 762 to 781: the issue \<open>main\<close> goes on with, as its position in the list of open
  issues, and the world after a possible \<open>create_issue\<close>; \<open>None\<close> when \<open>main\<close> returns at
  line 781.  A new issue has no comments and is listed first.
\<close>

definition obtain_issue :: "env \<Rightarrow> world \<Rightarrow> (nat \<times> world) option" where
  "obtain_issue ex w =
     (let created = w\<lparr>open_issues := \<lparr>i_title = asc ''GET UP'', i_comments = []\<rparr> # open_issues w\<rparr>
      in if list_issues_ok ex then
           (case find_get_up (open_issues w) 0 of
              Some k \<Rightarrow> Some (k, w)
            | None \<Rightarrow>
                if create_in_try_ok ex then Some (0, created)
                else if create_in_except_ok ex then Some (0, created)
                else None)
         else if create_in_except_ok ex then Some (0, created)
         else None)"

text \<open>\<open>issue.create_comment(text)\<close> on the issue at position \<open>k\<close>.\<close>

definition create_comment :: "nat \<Rightarrow> int \<Rightarrow> ustr \<Rightarrow> world \<Rightarrow> world" where
  "create_comment k stamp txt w =
     w\<lparr>open_issues := (open_issues w)
          [k := (open_issues w ! k)
             \<lparr>i_comments := i_comments (open_issues w ! k) @ [\<lparr>c_created_at = stamp, c_body = txt\<rparr>]\<rparr>]\<rparr>"

text \<open>
  Lines 752 to 838.  The result says how the run ended and gives the world after it.  An
  exception that \<open>main\<close> does not catch ends the run as \<open>Crashed\<close>, with the effects made
  so far.
\<close>

definition main :: "config \<Rightarrow> env \<Rightarrow> world \<Rightarrow> run_end \<times> world" where
  "main cfg ex w =
     (if \<not> repo_ok ex then (Crashed, w)
      else
        (case obtain_issue ex w of
           None \<Rightarrow> (NoIssue, w)
         | Some (k, w1) \<Rightarrow>
             if \<not> get_comments_ok ex then (Crashed, w1)
             else if truthy (get_today_get_up_status (to_local ex)
                               (i_comments (open_issues w1 ! k)) (now_gate ex))
             then (AlreadyRecorded, w1)
             else if is_get_up_early (now_message ex) then
               (if tele_token cfg \<noteq> [] \<and> tele_chat_id cfg \<noteq> [] \<and> \<not> telebot_ok ex
                then (Crashed, w1)
                else
                  let w2 = (if tele_token cfg \<noteq> [] \<and> tele_chat_id cfg \<noteq> [] \<and> telegram_ok ex
                            then w1\<lparr>telegram_sent := telegram_sent w1 @ [markdownify ex (digest_body ex)]\<rparr>
                            else w1);
                      w3 = (if dingtalk_webhook cfg \<noteq> [] \<and> dingtalk_ok ex
                            then w2\<lparr>dingtalk_sent := dingtalk_sent w2 @ [digest_body ex]\<rparr>
                            else w2)
                  in if create_comment_ok ex
                     then (Recorded,
                           create_comment k (comment_stamp ex) (remove_github_links (digest_body ex)) w3)
                     else (Crashed, w3))
             else (WokeLate, w1)))"

text \<open>
  The run passes the gate: \<open>main\<close> gets past line 786, that is, it has an issue, it could
  read the comments, and the status it got is false for Python.
\<close>

definition gate_passed :: "env \<Rightarrow> world \<Rightarrow> bool" where
  "gate_passed ex w \<longleftrightarrow>
     repo_ok ex \<and> get_comments_ok ex \<and>
     (case obtain_issue ex w of
        None \<Rightarrow> False
      | Some (k, w1) \<Rightarrow>
          \<not> truthy (get_today_get_up_status (to_local ex)
                      (i_comments (open_issues w1 ! k)) (now_gate ex)))"

section \<open>Activity Merger: \<open>get_yesterday_github_activity\<close>\<close>

text \<open>
  \<open>_make_api_request\<close> (lines 421 to 430) returns the pair \<open>(response.json(), None)\<close> on
  status 200 and \<open>(None, message)\<close> otherwise, also when the request raises; the message is
  never empty.  The two shapes are the two constructors.
\<close>

datatype 'a api_result = Data 'a | Failed ustr

text \<open>\<open>s.split("/")\<close>: the pieces between the separators, at least one piece.\<close>

fun split_acc :: "nat \<Rightarrow> ustr \<Rightarrow> ustr \<Rightarrow> ustr list" where
  "split_acc d acc [] = [rev acc]"
| "split_acc d acc (c # s) =
     (if c = d then rev acc # split_acc d [] s else split_acc d (c # acc) s)"

definition split_on :: "nat \<Rightarrow> ustr \<Rightarrow> ustr list" where
  "split_on d s = split_acc d [] s"

text \<open>Lines 416 to 418: \<open>"/".join(url.split("/")[-2:])\<close>; 47 is the slash.\<close>

definition get_repo_name_from_url :: "ustr \<Rightarrow> ustr" where
  "get_repo_name_from_url url =
     (let parts = split_on 47 url in join (asc ''/'') (drop (length parts - 2) parts))"

text \<open>An item of a search result, with the four values the program reads from it.\<close>

record search_item =
  s_login :: ustr
  s_repository_url :: ustr
  s_title :: ustr
  s_html_url :: ustr

text \<open>
  Lines 433 to 445 (\<open>_process_search_items\<close>).  The action text is
  \<open>U+521B U+5EFA U+4E86\<close> ("created") followed by \<open>PR\<close> or \<open>Issue\<close>.
\<close>

definition action_text :: "ustr \<Rightarrow> ustr" where
  "action_text item_type =
     (if item_type = asc ''pr'' then [21019, 24314, 20102] @ asc '' PR''
      else [21019, 24314, 20102] @ asc '' Issue'')"

definition render_search_item :: "ustr \<Rightarrow> search_item \<Rightarrow> ustr" where
  "render_search_item item_type item =
     action_text item_type @ asc '': ['' @ s_title item @ asc '']('' @ s_html_url item
     @ asc '') ('' @ get_repo_name_from_url (s_repository_url item) @ asc '')''"

definition process_search_items :: "search_item list \<Rightarrow> ustr \<Rightarrow> ustr \<Rightarrow> ustr list" where
  "process_search_items items username item_type =
     map (render_search_item item_type) (filter (\<lambda>item. s_login item = username) items)"

text \<open>
  An event of the public event stream.  \<open>e_created_at\<close> is the instant that
  \<open>pendulum.parse(event["created_at"])\<close> yields.  The program reads \<open>public\<close> and the
  payload's \<open>action\<close> with \<open>.get\<close>, so these may be absent (\<open>None\<close>); it subscripts
  \<open>pull_request\<close> and \<open>issue\<close> of the payload, which raises \<open>KeyError\<close> when the key is
  absent.
\<close>

record titled =
  t_title :: ustr
  t_html_url :: ustr

record gh_event =
  e_created_at :: int
  e_public :: "bool option"
  e_type :: ustr
  e_repo_name :: ustr
  e_action :: "ustr option"
  e_pull_request :: "titled option"
  e_issue :: "titled option"

text \<open>The three rendered lines of lines 471 to 485.\<close>

definition render_merged :: "titled \<Rightarrow> ustr \<Rightarrow> ustr" where
  "render_merged pr_data repo_name =
     [21512, 24182, 20102] @ asc '' PR: ['' @ t_title pr_data @ asc '']('' @ t_html_url pr_data
     @ asc '') ('' @ repo_name @ asc '')''"

definition render_closed :: "titled \<Rightarrow> ustr \<Rightarrow> ustr" where
  "render_closed issue_data repo_name =
     [20851, 38381, 20102] @ asc '' Issue: ['' @ t_title issue_data @ asc '']('' @ t_html_url issue_data
     @ asc '') ('' @ repo_name @ asc '')''"

definition render_starred :: "ustr \<Rightarrow> ustr" where
  "render_starred repo_name =
     asc ''Star '' @ [20102, 39033, 30446] @ asc '': ['' @ repo_name @ asc '']('' 
     @ asc ''https://github.com/'' @ repo_name @ asc '')''"

text \<open>
  Lines 452 to 487, the loop of \<open>_process_events\<close>: \<open>break\<close> returns what has been
  collected, \<open>continue\<close> goes on with the rest.
\<close>

fun process_events_loop :: "gh_event list \<Rightarrow> int \<Rightarrow> int \<Rightarrow> ustr list \<Rightarrow> exn + ustr list" where
  "process_events_loop [] yesterday_start yesterday_end activities = Inr activities"
| "process_events_loop (event # rest) yesterday_start yesterday_end activities =
     (if e_created_at event < yesterday_start then Inr activities
      else if \<not> (yesterday_start \<le> e_created_at event \<and> e_created_at event \<le> yesterday_end)
      then process_events_loop rest yesterday_start yesterday_end activities
      else if \<not> (case e_public event of None \<Rightarrow> True | Some b \<Rightarrow> b)
      then process_events_loop rest yesterday_start yesterday_end activities
      else if e_type event = asc ''PullRequestEvent'' then
        (if e_action event = Some (asc ''merged'') then
           (case e_pull_request event of
              None \<Rightarrow> Inl KeyError
            | Some pr_data \<Rightarrow>
                process_events_loop rest yesterday_start yesterday_end
                  (activities @ [render_merged pr_data (e_repo_name event)]))
         else process_events_loop rest yesterday_start yesterday_end activities)
      else if e_type event = asc ''IssuesEvent'' then
        (if e_action event = Some (asc ''closed'') then
           (case e_issue event of
              None \<Rightarrow> Inl KeyError
            | Some issue_data \<Rightarrow>
                process_events_loop rest yesterday_start yesterday_end
                  (activities @ [render_closed issue_data (e_repo_name event)]))
         else process_events_loop rest yesterday_start yesterday_end activities)
      else if e_type event = asc ''WatchEvent'' then
        (if e_action event = Some (asc ''started'') then
           process_events_loop rest yesterday_start yesterday_end
             (activities @ [render_starred (e_repo_name event)])
         else process_events_loop rest yesterday_start yesterday_end activities)
      else process_events_loop rest yesterday_start yesterday_end activities)"

text \<open>Lines 448 to 487 (\<open>_process_events\<close>): the loop runs over \<open>events[:100]\<close>.\<close>

definition process_events :: "gh_event list \<Rightarrow> int \<Rightarrow> int \<Rightarrow> exn + ustr list" where
  "process_events events yesterday_start yesterday_end =
     process_events_loop (take 100 events) yesterday_start yesterday_end []"

text \<open>
  Lines 557 to 575, the loop over the pages.  \<open>fetch page\<close> is the answer of
  \<open>_make_api_request\<close> for that page (with \<open>per_page\<close> 30).  Besides the activities the
  model returns the pages that were requested, in order.  An exception of
  \<open>_process_events\<close> leaves the loop.
\<close>

fun pages_loop ::
  "(nat \<Rightarrow> gh_event list api_result) \<Rightarrow> int \<Rightarrow> int \<Rightarrow> nat list \<Rightarrow> ustr list \<Rightarrow> nat list
     \<Rightarrow> (exn + ustr list) \<times> nat list" where
  "pages_loop fetch yesterday_start yesterday_end [] all_activities requested =
     (Inr all_activities, requested)"
| "pages_loop fetch yesterday_start yesterday_end (page # later) all_activities requested =
     (case fetch page of
        Failed err \<Rightarrow>
          pages_loop fetch yesterday_start yesterday_end later all_activities (requested @ [page])
      | Data events_data \<Rightarrow>
          if events_data = [] then (Inr all_activities, requested @ [page])
          else
            (case process_events events_data yesterday_start yesterday_end of
               Inl e \<Rightarrow> (Inl e, requested @ [page])
             | Inr page_activities \<Rightarrow>
                 if length events_data < 30
                 then (Inr (all_activities @ page_activities), requested @ [page])
                 else pages_loop fetch yesterday_start yesterday_end later
                        (all_activities @ page_activities) (requested @ [page])))"

text \<open>\<open>for page in range(1, 4)\<close>\<close>

definition consume_event_stream ::
  "(nat \<Rightarrow> gh_event list api_result) \<Rightarrow> int \<Rightarrow> int \<Rightarrow> (exn + ustr list) \<times> nat list" where
  "consume_event_stream fetch yesterday_start yesterday_end =
     pages_loop fetch yesterday_start yesterday_end [1, 2, 3] [] []"

text \<open>
  Two notions for stating what the loop over the pages does.  After page \<open>p\<close> the loop
  goes on to the next page exactly when the request for \<open>p\<close> failed (\<open>continue\<close>), or
  \<open>p\<close> held at least 30 events and \<open>_process_events\<close> returned on them.  The
  activities of a page are what \<open>_process_events\<close> returns on its events, nothing for a
  failed request.
\<close>

definition requests_next :: "(nat \<Rightarrow> gh_event list api_result) \<Rightarrow> int \<Rightarrow> int \<Rightarrow> nat \<Rightarrow> bool" where
  "requests_next fetch yesterday_start yesterday_end p =
     (case fetch p of
        Failed err \<Rightarrow> True
      | Data events_data \<Rightarrow>
          30 \<le> length events_data \<and>
          (case process_events events_data yesterday_start yesterday_end of
             Inl e \<Rightarrow> False
           | Inr page_activities \<Rightarrow> True))"

definition activities_of_page ::
  "(nat \<Rightarrow> gh_event list api_result) \<Rightarrow> int \<Rightarrow> int \<Rightarrow> nat \<Rightarrow> ustr list" where
  "activities_of_page fetch yesterday_start yesterday_end p =
     (case fetch p of
        Failed err \<Rightarrow> []
      | Data events_data \<Rightarrow>
          (case process_events events_data yesterday_start yesterday_end of
             Inl e \<Rightarrow> []
           | Inr page_activities \<Rightarrow> page_activities))"

text \<open>
  \<open>list(dict.fromkeys(activities))\<close>: the keys of the dictionary in the order of their
  first insertion.
\<close>

definition dict_fromkeys :: "'a list \<Rightarrow> 'a list" where
  "dict_fromkeys xs = foldl (\<lambda>keys k. if k \<in> set keys then keys else keys @ [k]) [] xs"

text \<open>Lines 584 to 588: \<open>unique_activities[:15]\<close>, the entries that are rendered.\<close>

definition merge_activities :: "ustr list \<Rightarrow> ustr list" where
  "merge_activities activities = take 15 (dict_fromkeys activities)"

text \<open>
  The result text of lines 586 to 588: the header \<open>GitHub\<close>, a full-width colon and two line
  feeds, then one line per entry, each after a bullet (U+2022) and a space.
\<close>

definition render_activities :: "ustr list \<Rightarrow> ustr" where
  "render_activities entries =
     asc ''GitHub'' @ [65306, 10, 10] @ join [10] (map (\<lambda>activity. [8226, 32] @ activity) entries)"

text \<open>
  The items of a search answer: \<open>data.get("items", [])\<close> when the answer is data
  (\<open>None\<close> for a dictionary without the key), nothing when the request failed.
\<close>

definition search_items :: "search_item list option api_result \<Rightarrow> search_item list" where
  "search_items r = (case r of Data (Some its) \<Rightarrow> its | Data None \<Rightarrow> [] | Failed err \<Rightarrow> [])"

text \<open>The search-based list of lines 509 to 550.\<close>

definition search_activities ::
  "ustr \<Rightarrow> search_item list option api_result \<Rightarrow> search_item list option api_result \<Rightarrow> ustr list" where
  "search_activities username pr_data issue_data =
     process_search_items (search_items pr_data) username (asc ''pr'')
     @ process_search_items (search_items issue_data) username (asc ''issue'')"

text \<open>
  Lines 490 to 596.  The inputs are the user name, the answers of the two searches, the
  answers for the pages of the event stream, and the window in UTC.  The result is the
  text and the pages requested.  \<open>except Exception\<close> turns an exception into the empty
  text.
\<close>

definition get_yesterday_github_activity ::
  "ustr \<Rightarrow> search_item list option api_result \<Rightarrow> search_item list option api_result
     \<Rightarrow> (nat \<Rightarrow> gh_event list api_result) \<Rightarrow> int \<Rightarrow> int \<Rightarrow> ustr \<times> nat list" where
  "get_yesterday_github_activity username pr_data issue_data fetch yesterday_start yesterday_end =
     (let activities = search_activities username pr_data issue_data
      in case consume_event_stream fetch yesterday_start yesterday_end of
           (Inl e, requested) \<Rightarrow> ([], requested)
         | (Inr all_activities, requested) \<Rightarrow>
             if activities @ all_activities \<noteq> []
             then (render_activities (merge_activities (activities @ all_activities)), requested)
             else ([], requested))"

section \<open>Fallback-Aggregating Selector: historical events\<close>

text \<open>
  Lines 58 to 69: the pool of ten filler statements, each given by its code points.
\<close>

definition FALLBACK_INTERESTING_FACTS :: "ustr list" where
  "FALLBACK_INTERESTING_FACTS =
    [
     [127922, 32, 20170, 22825, 26159, 20010, 29305, 21035, 30340, 26085, 23376, 65292,
      22240, 20026, 20320, 21448, 27963, 36807, 20102, 26032, 30340, 19968, 22825, 65281],
     [128161, 32, 26377, 36259, 30340, 20107, 23454, 65306, 27599, 22825, 22320, 29699,
      19978, 22823, 32422, 20250, 21457, 29983, 32, 53, 48, 44, 48, 48, 48, 32, 27425,
      22320, 38663, 65292, 20294, 22823, 22810, 25968, 25105, 20204, 24863, 35273, 19981,
      21040, 12290],
     [127757, 32, 20320, 30693, 36947, 21527, 65311, 22320, 29699, 27599, 22825, 20250,
      34987, 22823, 32422, 32, 49, 48, 48, 32, 21544, 30340, 23431, 23449, 23576, 22467,
      25758, 20987, 12290],
     [9200, 32, 26102, 38388, 23567, 30693, 35782, 65306, 19968, 22825, 24182, 19981,
      26159, 31934, 30830, 30340, 32, 50, 52, 32, 23567, 26102, 65292, 32780, 26159, 32,
      50, 51, 32, 23567, 26102, 32, 53, 54, 32, 20998, 32, 52, 32, 31186, 12290],
     [129504, 32, 22823, 33041, 36259, 38395, 65306, 20320, 30340, 22823, 33041, 27599,
      22825, 20135, 29983, 22823, 32422, 32, 53, 48, 44, 48, 48, 48, 32, 20010, 24819,
      27861, 12290],
     [128218, 32, 38405, 35835, 21551, 31034, 65306, 24179, 22343, 27599, 20154, 27599,
      22825, 20250, 35828, 22823, 32422, 32, 49, 54, 44, 48, 48, 48, 32, 20010, 23383,
      12290],
     [9749, 32, 21654, 21857, 22240, 20107, 23454, 65306, 20840, 19990, 30028, 27599,
      22825, 35201, 21917, 25481, 36229, 36807, 32, 50, 48, 32, 20159, 26479, 21654, 21857,
      12290],
     [127775, 32, 23431, 23449, 22885, 31192, 65306, 20809, 20174, 22826, 38451, 21040,
      36798, 22320, 29699, 38656, 35201, 32422, 32, 56, 32, 20998, 32, 50, 48, 32, 31186,
      12290],
     [128173, 32, 21746, 23398, 24605, 32771, 65306, 39, 20170, 22825, 39, 36825, 20010,
      35789, 22312, 19981, 21516, 26102, 21306, 26377, 32, 50, 52, 32, 31181, 19981, 21516,
      30340, 21547, 20041, 12290],
     [127919, 32, 28608, 21169, 35821, 24405, 65306, 27599, 19968, 20010, 20255, 22823,
      30340, 25104, 23601, 65292, 37117, 22987, 20110, 20915, 23450, 21435, 23581, 35797,
      12290]
    ]"

subsection \<open>Library behaviour the selector depends on\<close>

text \<open>
  Three things are decided by the interpreter and its libraries, not by the program:
  \<^item> \<open>unicode_decimal\<close>: the decimal value of a code point of Unicode category Nd, which
    is what \<^verbatim>\<open>\d\<close> matches in a \<open>str\<close> pattern and what \<open>int()\<close> accepts as a digit;
  \<^item> \<open>int_max_str_digits\<close>: the length above which \<open>int()\<close> raises \<open>ValueError\<close>
    (4300 by default since Python 3.11), 0 for no limit;
  \<^item> \<open>opencc_convert\<close>: \<open>cc.convert(text)\<close> of OpenCC, \<open>None\<close> when it raises.
\<close>

record pylib =
  unicode_decimal :: "nat \<Rightarrow> nat option"
  int_max_str_digits :: nat
  opencc_convert :: "ustr \<Rightarrow> ustr option"

text \<open>The ASCII digits, for examples.\<close>

definition ascii_decimal :: "nat \<Rightarrow> nat option" where
  "ascii_decimal c = (if 48 \<le> c \<and> c \<le> 57 then Some (c - 48) else None)"

definition example_lib :: pylib where
  "example_lib =
     \<lparr>unicode_decimal = ascii_decimal, int_max_str_digits = 4300, opencc_convert = Some\<rparr>"

text \<open>
  The draws of the random generator during one call: the one \<open>random.choice\<close> uses and
  the ones \<open>random.sample\<close> uses.
\<close>

record rnd =
  choice_draw :: nat
  sample_draws :: "nat list"

text \<open>
  \<open>random.choice(seq)\<close> on a non-empty sequence returns \<open>seq[i]\<close> for a position \<open>i\<close> below
  the length; the draw is reduced to such a position.
\<close>

definition random_choice :: "nat \<Rightarrow> 'a list \<Rightarrow> 'a" where
  "random_choice draw xs = xs ! (draw mod length xs)"

text \<open>
  \<open>random.sample(population, k)\<close> raises \<open>ValueError\<close> unless \<open>0 \<le> k \<le> len(population)\<close>.
  Otherwise it picks \<open>k\<close> times a position of the pool of elements not yet selected,
  moves the last element of the pool into the vacancy and shortens the pool.  This is the
  loop that CPython's \<open>sample\<close> runs for a small population (up to 21 elements for the
  sample sizes up to 5).  For a larger population CPython runs another loop, which draws
  positions of the population and draws again on a position already selected; from the
  same draws it returns another sample.  Both loops return the elements at \<open>k\<close> distinct
  positions of the population, and only consequences of that are proved of the sample: its
  size, that it is contained in the population as a multiset, and the order after the
  sort.  A missing draw counts as 0.
\<close>

fun sample_pool :: "'a list \<Rightarrow> nat \<Rightarrow> nat list \<Rightarrow> 'a list" where
  "sample_pool pool 0 draws = []"
| "sample_pool pool (Suc k) draws =
     (if pool = [] then []
      else
        let j = (case draws of [] \<Rightarrow> 0 | d # ds \<Rightarrow> d mod length pool)
        in pool ! j # sample_pool (butlast (pool[j := last pool])) k (tl draws))"

definition random_sample :: "'a list \<Rightarrow> int \<Rightarrow> nat list \<Rightarrow> exn + 'a list" where
  "random_sample population k draws =
     (if 0 \<le> k \<and> k \<le> int (length population) then Inr (sample_pool population (nat k) draws)
      else Inl ValueError)"

subsection \<open>String operations of the normalizers\<close>

text \<open>\<open>needle in haystack\<close> for two strings.\<close>

fun contains :: "'a list \<Rightarrow> 'a list \<Rightarrow> bool" where
  "contains needle [] = (needle = [])"
| "contains needle (c # s) = (strip_prefix needle (c # s) \<noteq> None \<or> contains needle s)"

text \<open>The marker of years before the common era, \<open>U+516C U+5143 U+524D\<close>.\<close>

definition bce_marker :: ustr where
  "bce_marker = [20844, 20803, 21069]"

definition is_digit :: "pylib \<Rightarrow> nat \<Rightarrow> bool" where
  "is_digit lib c \<longleftrightarrow> unicode_decimal lib c \<noteq> None"

text \<open>
  \<^verbatim>\<open>re.search(r"(\d+)", s)\<close>: group 1 of the leftmost match, the first maximal run of
  digits; \<open>None\<close> when there is no digit.
\<close>

definition search_digits :: "pylib \<Rightarrow> ustr \<Rightarrow> ustr option" where
  "search_digits lib s =
     (let run = takeWhile (is_digit lib) (dropWhile (\<lambda>c. \<not> is_digit lib c) s)
      in if run = [] then None else Some run)"

text \<open>
  \<^verbatim>\<open>re.search(r"<marker>(\d+)", s)\<close>: the leftmost position where the marker stands
  directly before a digit; group 1 is the maximal run of digits there.
\<close>

fun search_bce :: "pylib \<Rightarrow> ustr \<Rightarrow> ustr option" where
  "search_bce lib [] = None"
| "search_bce lib (c # s) =
     (case strip_prefix bce_marker (c # s) of
        Some r \<Rightarrow>
          if takeWhile (is_digit lib) r \<noteq> [] then Some (takeWhile (is_digit lib) r)
          else search_bce lib s
      | None \<Rightarrow> search_bce lib s)"

text \<open>\<open>int(s)\<close> for a string of digits, as the two patterns deliver it.\<close>

fun digits_value :: "(nat \<Rightarrow> nat option) \<Rightarrow> ustr \<Rightarrow> int \<Rightarrow> int option" where
  "digits_value dv [] acc = Some acc"
| "digits_value dv (c # s) acc =
     (case dv c of None \<Rightarrow> None | Some d \<Rightarrow> digits_value dv s (10 * acc + int d))"

definition py_int :: "pylib \<Rightarrow> ustr \<Rightarrow> exn + int" where
  "py_int lib s =
     (if s = [] then Inl ValueError
      else if int_max_str_digits lib \<noteq> 0 \<and> int_max_str_digits lib < length s then Inl ValueError
      else (case digits_value (unicode_decimal lib) s 0 of
              None \<Rightarrow> Inl ValueError
            | Some v \<Rightarrow> Inr v))"

text \<open>
  \<^verbatim>\<open>re.sub(r'<[^>]+>', '', text)\<close>: a match is a \<open><\<close> (60), a non-empty run without
  \<open>>\<close> (62), and the \<open>>\<close>; matches are removed from left to right.
\<close>

definition match_tag :: "ustr \<Rightarrow> ustr option" where
  "match_tag s =
     (case s of
        [] \<Rightarrow> None
      | c # r \<Rightarrow>
          if c \<noteq> 60 then None
          else if takeWhile (\<lambda>x. x \<noteq> 62) r = [] \<or> dropWhile (\<lambda>x. x \<noteq> 62) r = [] then None
          else Some (tl (dropWhile (\<lambda>x. x \<noteq> 62) r)))"

lemma match_tag_shorter:
  assumes "match_tag s = Some rest"
  shows "length rest < length s"
proof -
  from assms obtain c r where s: "s = c # r" and rest: "rest = tl (dropWhile (\<lambda>x. x \<noteq> 62) r)"
    by (cases s) (auto simp: match_tag_def split: if_splits)
  have "length (dropWhile (\<lambda>x. x \<noteq> 62) r) \<le> length r" by (rule length_dropWhile_le)
  then show ?thesis by (simp add: s rest)
qed

function strip_tags :: "ustr \<Rightarrow> ustr" where
  "strip_tags [] = []"
| "strip_tags (c # s) =
     (case match_tag (c # s) of
        Some rest \<Rightarrow> strip_tags rest
      | None \<Rightarrow> c # strip_tags s)"
  by pat_completeness auto
termination
  by (relation "measure length") (auto dest: match_tag_shorter)

text \<open>
  \<open>str.isspace\<close> of a code point, which decides what \<open>str.strip()\<close> removes at both
  ends.
\<close>

definition is_space :: "nat \<Rightarrow> bool" where
  "is_space c \<longleftrightarrow>
     (9 \<le> c \<and> c \<le> 13) \<or> (28 \<le> c \<and> c \<le> 32) \<or> c = 133 \<or> c = 160 \<or> c = 5760 \<or>
     (8192 \<le> c \<and> c \<le> 8202) \<or> c = 8232 \<or> c = 8233 \<or> c = 8239 \<or> c = 8287 \<or> c = 12288"

definition strip :: "ustr \<Rightarrow> ustr" where
  "strip s = rev (dropWhile is_space (rev (dropWhile is_space s)))"

text \<open>\<open>text.replace("\n", " ")\<close>\<close>

definition replace_newlines :: "ustr \<Rightarrow> ustr" where
  "replace_newlines s = map (\<lambda>c. if c = 10 then 32 else c) s"

text \<open>\<open>now.format("MM")\<close> and \<open>now.format("DD")\<close>: two digits, zero padded.\<close>

definition pad2 :: "int \<Rightarrow> ustr" where
  "pad2 i = (if i < 10 then [48] @ str_int i else str_int i)"

subsection \<open>Provider answers\<close>

text \<open>
  What \<open>requests.get\<close> followed by \<open>response.json()\<close> does: the request raises, or there
  is a response with its \<open>ok\<close> flag and a body that is JSON of the provider's shape
  (\<open>None\<close> when \<open>json()\<close> raises or the payload is malformed so that reading it raises).
\<close>

datatype 'a http_response = ConnectionFailed | Response bool "'a option"

text \<open>
  An event of Baidu's payload: the values of \<open>year\<close>, \<open>title\<close> and \<open>desc\<close>, each
  \<open>None\<close> when the key is absent.  The payload maps the month to a dictionary from
  month and day to the events.
\<close>

record baidu_raw =
  b_year :: "ustr option"
  b_title :: "ustr option"
  b_desc :: "ustr option"

type_synonym baidu_payload = "ustr \<Rightarrow> (ustr \<Rightarrow> baidu_raw list option) option"

text \<open>
  An event of Wikimedia's payload in the provider's shape: \<open>year\<close> an integer (\<open>None\<close> when
  absent or null), \<open>text\<close> a string, and for each page the value of
  \<open>content_urls.desktop.page\<close> (\<open>None\<close> when one of the three keys is absent).  The payload
  is the value of \<open>events\<close>, \<open>None\<close> when the key is absent.  The normalizers are followed
  on bodies of any other shape in the section on arbitrary JSON.
\<close>

record wiki_raw =
  w_year :: "int option"
  w_text :: "ustr option"
  w_pages :: "ustr option list"

type_synonym wiki_payload = "wiki_raw list option"

text \<open>
  The normalized event: the dictionary with the keys \<open>year\<close>, \<open>text\<close> and, from
  Wikimedia only, \<open>wiki_url\<close>.
\<close>

record hist_event =
  h_year :: int
  h_text :: ustr
  h_wiki_url :: "ustr option"

subsection \<open>\<open>get_history_today_from_baidu\<close>\<close>

text \<open>Lines 254 to 266: \<open>year_match\<close>, \<open>None\<close> when no pattern matches.\<close>

definition baidu_year :: "pylib \<Rightarrow> ustr \<Rightarrow> exn + int option" where
  "baidu_year lib year_str =
     (if contains bce_marker year_str then
        (case search_bce lib year_str of
           None \<Rightarrow> Inr None
         | Some digits \<Rightarrow>
             (case py_int lib digits of Inl e \<Rightarrow> Inl e | Inr v \<Rightarrow> Inr (Some (- v))))
      else
        (case search_digits lib year_str of
           None \<Rightarrow> Inr None
         | Some digits \<Rightarrow>
             (case py_int lib digits of Inl e \<Rightarrow> Inl e | Inr v \<Rightarrow> Inr (Some v))))"

text \<open>Line 269: \<open>event.get("title", "") or event.get("desc", "")\<close>, then line 271.\<close>

definition baidu_text :: "baidu_raw \<Rightarrow> ustr" where
  "baidu_text event =
     strip_tags
       (let title = (case b_title event of None \<Rightarrow> [] | Some t \<Rightarrow> t)
        in if title \<noteq> [] then title else (case b_desc event of None \<Rightarrow> [] | Some d \<Rightarrow> d))"

text \<open>Lines 252 to 272, the loop.\<close>

fun baidu_events_loop :: "pylib \<Rightarrow> baidu_raw list \<Rightarrow> hist_event list \<Rightarrow> exn + hist_event list" where
  "baidu_events_loop lib [] events = Inr events"
| "baidu_events_loop lib (event # rest) events =
     (case baidu_year lib (case b_year event of None \<Rightarrow> [] | Some y \<Rightarrow> y) of
        Inl e \<Rightarrow> Inl e
      | Inr None \<Rightarrow> baidu_events_loop lib rest events
      | Inr (Some year_match) \<Rightarrow>
          baidu_events_loop lib rest
            (events @ [\<lparr>h_year = year_match, h_text = baidu_text event, h_wiki_url = None\<rparr>]))"

text \<open>
  Lines 220 to 278.  The parameters \<open>birth_year\<close> and \<open>limit\<close> of the source are not used
  by it.  Every exception ends in \<open>return []\<close>.
\<close>

definition baidu_events_raw :: "datetime \<Rightarrow> baidu_payload \<Rightarrow> baidu_raw list" where
  "baidu_events_raw now data =
     (let month = pad2 (dt_month now);
          day = pad2 (dt_day now);
          month_data = (case data month of None \<Rightarrow> (\<lambda>k. None) | Some m \<Rightarrow> m)
      in case month_data (month @ day) of None \<Rightarrow> [] | Some events_raw \<Rightarrow> events_raw)"

definition get_history_today_from_baidu ::
  "pylib \<Rightarrow> datetime \<Rightarrow> baidu_payload http_response \<Rightarrow> hist_event list" where
  "get_history_today_from_baidu lib now response =
     (case response of
        ConnectionFailed \<Rightarrow> []
      | Response ok body \<Rightarrow>
          if \<not> ok then []
          else
            (case body of
               None \<Rightarrow> []
             | Some data \<Rightarrow>
                 (case baidu_events_loop lib (baidu_events_raw now data) [] of
                    Inl e \<Rightarrow> []
                  | Inr events \<Rightarrow> events)))"

subsection \<open>\<open>get_history_today_from_wikimedia\<close>\<close>

text \<open>Lines 312 to 324: one event; \<open>if year:\<close> is false for \<open>None\<close> and for 0.\<close>

definition wiki_event :: "wiki_raw \<Rightarrow> hist_event option" where
  "wiki_event event =
     (let text = (case w_text event of None \<Rightarrow> [] | Some t \<Rightarrow> t);
          wiki_url = (case w_pages event of
                        [] \<Rightarrow> []
                      | page # others \<Rightarrow> (case page of None \<Rightarrow> [] | Some u \<Rightarrow> u))
      in case w_year event of
           None \<Rightarrow> None
         | Some year \<Rightarrow>
             if year \<noteq> 0
             then Some \<lparr>h_year = year, h_text = text, h_wiki_url = Some wiki_url\<rparr>
             else None)"

text \<open>Lines 281 to 330.\<close>

definition get_history_today_from_wikimedia ::
  "datetime \<Rightarrow> wiki_payload http_response \<Rightarrow> hist_event list" where
  "get_history_today_from_wikimedia now response =
     (case response of
        ConnectionFailed \<Rightarrow> []
      | Response ok body \<Rightarrow>
          if \<not> ok then []
          else
            (case body of
               None \<Rightarrow> []
             | Some data \<Rightarrow>
                 List.map_filter wiki_event (case data of None \<Rightarrow> [] | Some events_raw \<Rightarrow> events_raw)))"

subsection \<open>\<open>get_history_today\<close>\<close>

text \<open>Lines 349 to 354: Wikimedia first, Baidu when Wikimedia gave no event.\<close>

definition fetch_events ::
  "pylib \<Rightarrow> datetime \<Rightarrow> wiki_payload http_response \<Rightarrow> baidu_payload http_response
     \<Rightarrow> hist_event list" where
  "fetch_events lib now wiki_response baidu_response =
     (let events = get_history_today_from_wikimedia now wiki_response
      in if events = [] then get_history_today_from_baidu lib now baidu_response else events)"

text \<open>Lines 360 to 368.\<close>

definition filter_events :: "int \<Rightarrow> int \<Rightarrow> hist_event list \<Rightarrow> hist_event list" where
  "filter_events birth_year current_year events =
     (let filtered_events =
            filter (\<lambda>event. birth_year \<le> h_year event \<and> h_year event \<le> current_year) events
      in if filtered_events = [] then filter (\<lambda>e. 0 < h_year e) events else filtered_events)"

text \<open>
  Lines 374 to 378: the sample, then \<open>sort(key=year, reverse=True)\<close>, a stable sort in
  descending order of the year.
\<close>

definition select_events :: "hist_event list \<Rightarrow> int \<Rightarrow> nat list \<Rightarrow> exn + hist_event list" where
  "select_events filtered_events limit draws =
     (case random_sample filtered_events (min limit (int (length filtered_events))) draws of
        Inl e \<Rightarrow> Inl e
      | Inr selected_events \<Rightarrow> Inr (sort_key (\<lambda>x. - h_year x) selected_events))"

text \<open>
  Lines 345 to 378 up to the selection: \<open>None\<close> stands for the two places that return a
  filler statement, \<open>Some\<close> holds the selected events in the order they are rendered.
\<close>

definition history_selection ::
  "pylib \<Rightarrow> rnd \<Rightarrow> int \<Rightarrow> int \<Rightarrow> datetime \<Rightarrow> wiki_payload http_response
     \<Rightarrow> baidu_payload http_response \<Rightarrow> exn + hist_event list option" where
  "history_selection lib rand birth_year limit now wiki_response baidu_response =
     (let current_year = dt_year now;
          events = fetch_events lib now wiki_response baidu_response
      in if events = [] then Inr None
         else
           let filtered_events = filter_events birth_year current_year events
           in if filtered_events = [] then Inr None
              else
                (case select_events filtered_events limit (sample_draws rand) of
                   Inl e \<Rightarrow> Inl e
                 | Inr selected_events \<Rightarrow> Inr (Some selected_events)))"

text \<open>
  Lines 387 to 395: the age annotation.  \<open>if year and ...\<close> is false for the year 0.  The
  texts are "(that year I was \<open>n\<close>)" and "(\<open>n\<close> years before my birth)" in Chinese, in
  full-width parentheses.
\<close>

definition age_text :: "int \<Rightarrow> int \<Rightarrow> ustr" where
  "age_text birth_year year =
     (if year \<noteq> 0 \<and> birth_year \<le> year
      then [65288, 37027, 24180, 25105, 32] @ str_int (year - birth_year) @ [32, 23681, 65289]
      else if year \<noteq> 0 \<and> year < birth_year
      then [65288, 25105, 20986, 29983, 21069, 32] @ str_int (birth_year - year) @ [32, 24180, 65289]
      else [])"

text \<open>
  Lines 383 to 406: the line of one event.  \<open>convert\<close> may raise.  \<open>U+2022\<close> is the bullet,
  \<open>U+5E74\<close> the word for year, \<open>U+FF1A\<close> the full-width colon.
\<close>

definition render_event :: "pylib \<Rightarrow> int \<Rightarrow> hist_event \<Rightarrow> exn + ustr" where
  "render_event lib birth_year event =
     (let year = h_year event;
          wiki_url = (case h_wiki_url event of None \<Rightarrow> [] | Some u \<Rightarrow> u)
      in case opencc_convert lib (strip (replace_newlines (h_text event))) of
           None \<Rightarrow> Inl LibraryError
         | Some text \<Rightarrow>
             if wiki_url \<noteq> []
             then Inr ([8226, 32, 42, 42] @ str_int year @ [24180, 42, 42, 65306] @ asc ''[''
                       @ text @ asc '']('' @ wiki_url @ asc '') '' @ age_text birth_year year
                       @ asc ''  '')
             else Inr ([8226, 32, 42, 42] @ str_int year @ [24180, 42, 42, 65306] @ text
                       @ asc '' '' @ age_text birth_year year @ asc ''  ''))"

text \<open>Lines 380 to 406, the loop.\<close>

fun render_events :: "pylib \<Rightarrow> int \<Rightarrow> hist_event list \<Rightarrow> ustr list \<Rightarrow> exn + ustr list" where
  "render_events lib birth_year [] result_lines = Inr result_lines"
| "render_events lib birth_year (event # rest) result_lines =
     (case render_event lib birth_year event of
        Inl e \<Rightarrow> Inl e
      | Inr line \<Rightarrow> render_events lib birth_year rest (result_lines @ [line]))"

text \<open>The header of line 408, "today in history" with a full-width colon and two line feeds.\<close>

definition history_header :: ustr where
  "history_header = [21382, 21490, 19978, 30340, 20170, 22825, 65306, 10, 10]"

text \<open>Lines 346 to 408, the body of the \<open>try\<close> block.\<close>

definition get_history_today_body ::
  "pylib \<Rightarrow> rnd \<Rightarrow> int \<Rightarrow> int \<Rightarrow> datetime \<Rightarrow> wiki_payload http_response
     \<Rightarrow> baidu_payload http_response \<Rightarrow> exn + ustr" where
  "get_history_today_body lib rand birth_year limit now wiki_response baidu_response =
     (case history_selection lib rand birth_year limit now wiki_response baidu_response of
        Inl e \<Rightarrow> Inl e
      | Inr None \<Rightarrow> Inr (random_choice (choice_draw rand) FALLBACK_INTERESTING_FACTS)
      | Inr (Some selected_events) \<Rightarrow>
          (case render_events lib birth_year selected_events [] of
             Inl e \<Rightarrow> Inl e
           | Inr result_lines \<Rightarrow> Inr (history_header @ join [10] result_lines)))"

text \<open>
  Lines 333 to 413: \<open>except Exception\<close> answers every exception of the body with a filler
  statement.
\<close>

definition get_history_today ::
  "pylib \<Rightarrow> rnd \<Rightarrow> int \<Rightarrow> int \<Rightarrow> datetime \<Rightarrow> wiki_payload http_response
     \<Rightarrow> baidu_payload http_response \<Rightarrow> ustr" where
  "get_history_today lib rand birth_year limit now wiki_response baidu_response =
     (case get_history_today_body lib rand birth_year limit now wiki_response baidu_response of
        Inl e \<Rightarrow> random_choice (choice_draw rand) FALLBACK_INTERESTING_FACTS
      | Inr text \<Rightarrow> text)"

text \<open>The defaults of the source: \<open>BIRTH_YEAR = 1999\<close> and \<open>limit=3\<close>.\<close>

definition BIRTH_YEAR :: int where
  "BIRTH_YEAR = 1999"

subsection \<open>The normalizers on arbitrary JSON\<close>

text \<open>
  The two normalizers read what \<open>response.json()\<close> returns, and nothing in them checks
  its shape.  This part follows them on every JSON value, with the dynamic checks of
  Python written out: \<open>.get\<close> exists on dictionaries only, \<open>for\<close> iterates lists, strings
  and the keys of dictionaries, \<open>x[0]\<close> needs a sequence, \<open>in\<close> and the \<open>re\<close> functions need
  the right operand types.  \<open>json.loads\<close> yields \<open>None\<close>, \<open>bool\<close>, \<open>int\<close>, \<open>float\<close> (of which
  only being zero matters here; \<open>JNonFinite\<close> stands for \<open>NaN\<close> and the infinities, which
  it accepts too), \<open>str\<close>, \<open>list\<close> and \<open>dict\<close>.  In a dictionary a repeated key keeps its
  last value.
\<close>

datatype json =
  JNull | JBool bool | JInt int | JFloat rat | JNonFinite | JStr ustr
  | JArr "json list" | JObj "(ustr \<times> json) list"

text \<open>Python's truth test, as \<open>if year:\<close> and \<open>if pages:\<close> and \<open>or\<close> apply it.\<close>

fun json_truthy :: "json \<Rightarrow> bool" where
  "json_truthy JNull = False"
| "json_truthy (JBool b) = b"
| "json_truthy (JInt i) = (i \<noteq> 0)"
| "json_truthy (JFloat q) = (q \<noteq> 0)"
| "json_truthy JNonFinite = True"
| "json_truthy (JStr s) = (s \<noteq> [])"
| "json_truthy (JArr xs) = (xs \<noteq> [])"
| "json_truthy (JObj kvs) = (kvs \<noteq> [])"

text \<open>\<open>x.get(key, default)\<close>: \<open>AttributeError\<close> unless \<open>x\<close> is a dictionary.\<close>

definition py_get :: "json \<Rightarrow> ustr \<Rightarrow> json \<Rightarrow> exn + json" where
  "py_get x key dflt =
     (case x of
        JObj kvs \<Rightarrow> Inr (case map_of (rev kvs) key of None \<Rightarrow> dflt | Some v \<Rightarrow> v)
      | _ \<Rightarrow> Inl AttributeError)"

text \<open>
  The values \<open>for event in x\<close> runs through: the elements of a list, the characters of
  a string, the keys of a dictionary; \<open>TypeError\<close> for every other value.
\<close>

definition py_iter :: "json \<Rightarrow> exn + json list" where
  "py_iter x =
     (case x of
        JArr xs \<Rightarrow> Inr xs
      | JStr s \<Rightarrow> Inr (map (\<lambda>c. JStr [c]) s)
      | JObj kvs \<Rightarrow> Inr (map JStr (dict_fromkeys (map fst kvs)))
      | _ \<Rightarrow> Inl TypeError)"

text \<open>\<open>x[0]\<close>: a dictionary of JSON has no key 0, a number cannot be subscripted.\<close>

definition py_first :: "json \<Rightarrow> exn + json" where
  "py_first x =
     (case x of
        JArr xs \<Rightarrow> (case xs of [] \<Rightarrow> Inl IndexError | y # ys \<Rightarrow> Inr y)
      | JStr s \<Rightarrow> (case s of [] \<Rightarrow> Inl IndexError | c # cs \<Rightarrow> Inr (JStr [c]))
      | JObj kvs \<Rightarrow> Inl KeyError
      | _ \<Rightarrow> Inl TypeError)"

text \<open>
  The event that the Wikimedia normalizer appends: the dictionary with the keys \<open>year\<close>,
  \<open>text\<close> and \<open>wiki_url\<close>, whose values are whatever the payload held.
\<close>

record json_event =
  j_year :: json
  j_text :: json
  j_wiki_url :: json

text \<open>Lines 316 to 321.\<close>

definition wiki_url_json :: "json \<Rightarrow> exn + json" where
  "wiki_url_json pages =
     (if json_truthy pages then
        and_then (py_first pages) (\<lambda>page.
        and_then (py_get page (asc ''content_urls'') (JObj [])) (\<lambda>content_urls.
        and_then (py_get content_urls (asc ''desktop'') (JObj [])) (\<lambda>desktop.
        py_get desktop (asc ''page'') (JStr []))))
      else Inr (JStr []))"

text \<open>Lines 314 to 324, one round of the loop: the event appended, if any.\<close>

definition wiki_event_json :: "json \<Rightarrow> exn + json_event option" where
  "wiki_event_json event =
     and_then (py_get event (asc ''year'') JNull) (\<lambda>year.
     and_then (py_get event (asc ''text'') (JStr [])) (\<lambda>text.
     and_then (py_get event (asc ''pages'') (JArr [])) (\<lambda>pages.
     and_then (wiki_url_json pages) (\<lambda>wiki_url.
       Inr (if json_truthy year
            then Some \<lparr>j_year = year, j_text = text, j_wiki_url = wiki_url\<rparr>
            else None)))))"

fun wiki_events_loop_json :: "json list \<Rightarrow> json_event list \<Rightarrow> exn + json_event list" where
  "wiki_events_loop_json [] events = Inr events"
| "wiki_events_loop_json (event # rest) events =
     (case wiki_event_json event of
        Inl e \<Rightarrow> Inl e
      | Inr None \<Rightarrow> wiki_events_loop_json rest events
      | Inr (Some emitted) \<Rightarrow> wiki_events_loop_json rest (events @ [emitted]))"

text \<open>Lines 309 and 310: the values the loop runs through.\<close>

definition wiki_events_raw_json :: "json \<Rightarrow> exn + json list" where
  "wiki_events_raw_json data = and_then (py_get data (asc ''events'') (JArr [])) py_iter"

text \<open>Lines 281 to 330 on any JSON body.\<close>

definition get_history_today_from_wikimedia_json ::
  "datetime \<Rightarrow> json http_response \<Rightarrow> json_event list" where
  "get_history_today_from_wikimedia_json now response =
     (case response of
        ConnectionFailed \<Rightarrow> []
      | Response ok body \<Rightarrow>
          if \<not> ok then []
          else
            (case body of
               None \<Rightarrow> []
             | Some data \<Rightarrow>
                 (case and_then (wiki_events_raw_json data) (\<lambda>events_raw.
                         wiki_events_loop_json events_raw []) of
                    Inl e \<Rightarrow> []
                  | Inr events \<Rightarrow> events)))"

text \<open>
  Line 257, \<open>marker in year_str\<close>: a substring test on a string, a membership test on a
  list, a key test on a dictionary, \<open>TypeError\<close> otherwise.
\<close>

definition json_contains_marker :: "json \<Rightarrow> exn + bool" where
  "json_contains_marker year_str =
     (case year_str of
        JStr s \<Rightarrow> Inr (contains bce_marker s)
      | JArr xs \<Rightarrow> Inr (JStr bce_marker \<in> set xs)
      | JObj kvs \<Rightarrow> Inr (bce_marker \<in> set (map fst kvs))
      | _ \<Rightarrow> Inl TypeError)"

text \<open>Lines 254 to 266: \<open>re.search\<close> raises \<open>TypeError\<close> on a value that is no string.\<close>

definition baidu_year_json :: "pylib \<Rightarrow> json \<Rightarrow> exn + int option" where
  "baidu_year_json lib year_str =
     and_then (json_contains_marker year_str) (\<lambda>bce.
       if bce then
         (case year_str of
            JStr s \<Rightarrow>
              (case search_bce lib s of
                 None \<Rightarrow> Inr None
               | Some digits \<Rightarrow> and_then (py_int lib digits) (\<lambda>v. Inr (Some (- v))))
          | _ \<Rightarrow> Inl TypeError)
       else
         (case year_str of
            JStr s \<Rightarrow>
              (case search_digits lib s of
                 None \<Rightarrow> Inr None
               | Some digits \<Rightarrow> and_then (py_int lib digits) (\<lambda>v. Inr (Some v)))
          | _ \<Rightarrow> Inl TypeError))"

text \<open>
  Lines 269 to 271: \<open>event.get("title", "") or event.get("desc", "")\<close>, then \<open>re.sub\<close>,
  which raises \<open>TypeError\<close> on a value that is no string.
\<close>

definition baidu_text_json :: "json \<Rightarrow> exn + ustr" where
  "baidu_text_json event =
     and_then (py_get event (asc ''title'') (JStr [])) (\<lambda>title.
     and_then (if json_truthy title then Inr title else py_get event (asc ''desc'') (JStr []))
       (\<lambda>text. case text of JStr s \<Rightarrow> Inr (strip_tags s) | _ \<Rightarrow> Inl TypeError))"

text \<open>Lines 253 to 272, the loop.  The appended event has an \<open>int\<close> year and a \<open>str\<close> text.\<close>

fun baidu_events_loop_json :: "pylib \<Rightarrow> json list \<Rightarrow> hist_event list \<Rightarrow> exn + hist_event list" where
  "baidu_events_loop_json lib [] events = Inr events"
| "baidu_events_loop_json lib (event # rest) events =
     (case and_then (py_get event (asc ''year'') (JStr [])) (baidu_year_json lib) of
        Inl e \<Rightarrow> Inl e
      | Inr None \<Rightarrow> baidu_events_loop_json lib rest events
      | Inr (Some year_match) \<Rightarrow>
          (case baidu_text_json event of
             Inl e \<Rightarrow> Inl e
           | Inr text \<Rightarrow>
               baidu_events_loop_json lib rest
                 (events @ [\<lparr>h_year = year_match, h_text = text, h_wiki_url = None\<rparr>])))"



text \<open>
  The payloads of the provider's shape as JSON: the typed records of the sections above
  are the restriction of the JSON model to them (shown among the properties).
\<close>

definition wiki_raw_to_json :: "wiki_raw \<Rightarrow> json" where
  "wiki_raw_to_json event =
     JObj ((case w_year event of None \<Rightarrow> [] | Some y \<Rightarrow> [(asc ''year'', JInt y)])
           @ (case w_text event of None \<Rightarrow> [] | Some t \<Rightarrow> [(asc ''text'', JStr t)])
           @ [(asc ''pages'',
               JArr (map (\<lambda>page. case page of
                              None \<Rightarrow> JObj []
                            | Some u \<Rightarrow>
                                JObj [(asc ''content_urls'',
                                       JObj [(asc ''desktop'', JObj [(asc ''page'', JStr u)])])])
                         (w_pages event)))])"

definition wiki_payload_to_json :: "wiki_payload \<Rightarrow> json" where
  "wiki_payload_to_json data =
     (case data of
        None \<Rightarrow> JObj []
      | Some events_raw \<Rightarrow> JObj [(asc ''events'', JArr (map wiki_raw_to_json events_raw))])"

definition hist_event_to_json :: "hist_event \<Rightarrow> json_event" where
  "hist_event_to_json event =
     \<lparr>j_year = JInt (h_year event), j_text = JStr (h_text event),
      j_wiki_url = JStr (case h_wiki_url event of None \<Rightarrow> [] | Some u \<Rightarrow> u)\<rparr>"

definition baidu_raw_to_json :: "baidu_raw \<Rightarrow> json" where
  "baidu_raw_to_json event =
     JObj ((case b_year event of None \<Rightarrow> [] | Some y \<Rightarrow> [(asc ''year'', JStr y)])
           @ (case b_title event of None \<Rightarrow> [] | Some t \<Rightarrow> [(asc ''title'', JStr t)])
           @ (case b_desc event of None \<Rightarrow> [] | Some d \<Rightarrow> [(asc ''desc'', JStr d)]))"

subsection \<open>Example provider answers\<close>

text \<open>
  7 August 2025.  \<open>baidu_one\<close> holds one event for that day, the year string "1999" followed
  by the word for year, the title with markup.  \<open>baidu_four\<close> holds four events, one of them
  before the birth year.  \<open>wiki_untitled\<close> holds an event with a year and no text,
  \<open>baidu_bce_zero\<close> an event whose year string is the marker followed by "0".
\<close>

definition example_now :: datetime where
  "example_now = \<lparr>dt_year = 2025, dt_month = 8, dt_day = 7, dt_hour = 6, dt_day_of_year = 219\<rparr>"

definition example_rand :: rnd where
  "example_rand = \<lparr>choice_draw = 3, sample_draws = [2, 1, 0]\<rparr>"

definition baidu_on_0807 :: "baidu_raw list \<Rightarrow> baidu_payload http_response" where
  "baidu_on_0807 events_raw =
     Response True (Some (\<lambda>month. if month = asc ''08''
        then Some (\<lambda>key. if key = asc ''0807'' then Some events_raw else None) else None))"

definition baidu_one :: "baidu_raw list" where
  "baidu_one =
     [\<lparr>b_year = Some (asc ''1999'' @ [24180]), b_title = Some (asc ''Event <b>A</b>''),
       b_desc = None\<rparr>]"

definition baidu_four :: "baidu_raw list" where
  "baidu_four =
     [\<lparr>b_year = Some (asc ''2005''), b_title = Some (asc ''B''), b_desc = None\<rparr>,
      \<lparr>b_year = Some (asc ''1800''), b_title = Some (asc ''old''), b_desc = None\<rparr>,
      \<lparr>b_year = Some (asc ''2010''), b_title = Some (asc ''C''), b_desc = None\<rparr>,
      \<lparr>b_year = Some (asc ''1999''), b_title = Some (asc ''A''), b_desc = None\<rparr>]"

definition baidu_bce_zero :: "baidu_raw list" where
  "baidu_bce_zero =
     [\<lparr>b_year = Some (bce_marker @ asc ''0''), b_title = Some (asc ''T''), b_desc = None\<rparr>]"

definition baidu_bce :: "baidu_raw list" where
  "baidu_bce =
     [\<lparr>b_year = Some (bce_marker @ asc ''221'' @ [24180]), b_title = Some (asc ''Qin''), b_desc = None\<rparr>,
      \<lparr>b_year = Some (asc ''unknown''), b_title = Some (asc ''dropped''), b_desc = None\<rparr>]"

definition wiki_untitled :: "wiki_payload http_response" where
  "wiki_untitled = Response True (Some (Some [\<lparr>w_year = Some 1999, w_text = None, w_pages = []\<rparr>]))"

definition wiki_two :: "wiki_payload http_response" where
  "wiki_two =
     Response True (Some (Some
       [\<lparr>w_year = Some 2001, w_text = Some (asc ''W''), w_pages = [Some (asc ''https://w/X'')]\<rparr>,
        \<lparr>w_year = Some 0, w_text = Some (asc ''zero''), w_pages = []\<rparr>,
        \<lparr>w_year = None, w_text = Some (asc ''none''), w_pages = []\<rparr>]))"









subsection \<open>Example event streams\<close>

text \<open>
  The window is 1000 to 2000.  \<open>old_event\<close> lies before the window, \<open>star_event\<close> in it.
  \<open>late_star_fetch\<close> answers page 1 with a full page of 30 old events and page 2 with one
  star event in the window.
\<close>

definition old_event :: gh_event where
  "old_event =
     \<lparr>e_created_at = 900, e_public = Some True, e_type = asc ''PushEvent'',
      e_repo_name = asc ''o/r'', e_action = None, e_pull_request = None, e_issue = None\<rparr>"

definition star_event :: gh_event where
  "star_event =
     \<lparr>e_created_at = 1500, e_public = Some True, e_type = asc ''WatchEvent'',
      e_repo_name = asc ''o/r'', e_action = Some (asc ''started''), e_pull_request = None,
      e_issue = None\<rparr>"

definition late_star_fetch :: "nat \<Rightarrow> gh_event list api_result" where
  "late_star_fetch page =
     (if page = 1 then Data (replicate 30 old_event)
      else if page = 2 then Data [star_event]
      else Failed (asc ''404''))"

text \<open>A stream of one short page, and a search answer with one pull request of the user.\<close>

definition short_fetch :: "nat \<Rightarrow> gh_event list api_result" where
  "short_fetch page = (if page = 1 then Data [star_event, old_event, star_event] else Data [])"

definition example_pr :: search_item where
  "example_pr =
     \<lparr>s_login = asc ''u'', s_repository_url = asc ''https://api.github.com/repos/o/r'',
      s_title = asc ''fix'', s_html_url = asc ''https://github.com/o/r/pull/1''\<rparr>"

subsection \<open>Example runs\<close>

text \<open>
  A tracker with the issue \<open>GET UP\<close> holding one comment written on 3 November, a run on
  4 November at ten o'clock and the same run at seven o'clock, with both channels
  configured and every collaborator answering.
\<close>

definition example_world :: world where
  "example_world =
     \<lparr>open_issues =
        [\<lparr>i_title = asc ''notes'', i_comments = []\<rparr>,
         \<lparr>i_title = asc ''GET UP'',
          i_comments = [\<lparr>c_created_at = 100, c_body = asc ''up at 6''\<rparr>]\<rparr>],
      telegram_sent = [], dingtalk_sent = []\<rparr>"

definition example_config :: config where
  "example_config =
     \<lparr>tele_token = asc ''1:t'', tele_chat_id = asc ''42'',
      dingtalk_webhook = asc ''https://hook'', dingtalk_secret = []\<rparr>"

definition example_env :: "int \<Rightarrow> env" where
  "example_env h =
     \<lparr>repo_ok = True, list_issues_ok = True, create_in_try_ok = True,
      create_in_except_ok = True, get_comments_ok = True, telebot_ok = True,
      telegram_ok = True, dingtalk_ok = True, create_comment_ok = True,
      to_local = (\<lambda>t. \<lparr>dt_year = 2026, dt_month = 11, dt_day = 3, dt_hour = 6,
                          dt_day_of_year = 307\<rparr>),
      now_gate = \<lparr>dt_year = 2026, dt_month = 11, dt_day = 4, dt_hour = h,
                  dt_day_of_year = 308\<rparr>,
      now_message = \<lparr>dt_year = 2026, dt_month = 11, dt_day = 4, dt_hour = h,
                     dt_day_of_year = 308\<rparr>,
      comment_stamp = 200,
      digest_body = asc ''see [repo](https://github.com/o/r)'',
      markdownify = (\<lambda>s. s)\<rparr>"

text \<open>A tracker whose \<open>GET UP\<close> issue has no comment yet.\<close>

definition fresh_world :: world where
  "fresh_world =
     \<lparr>open_issues = [\<lparr>i_title = asc ''GET UP'', i_comments = []\<rparr>],
      telegram_sent = [], dingtalk_sent = []\<rparr>"

section \<open>Properties\<close>

subsection \<open>The float model rounds to nearest\<close>

text \<open>
  The quotient and the product of the model are correctly rounded binary64 numbers: the
  significand has 53 bits, the result differs from the exact value by at most half a
  unit in the last place, and a tie goes to the even significand.  \<open>int()\<close> is the floor
  of a positive float.
\<close>

lemma ilog2_nonneg: "0 \<le> ilog2 n"
  by (induction n rule: ilog2.induct) (subst ilog2.simps, simp)

lemma ilog2_bounds:
  "1 \<le> n \<Longrightarrow> 2 ^ nat (ilog2 n) \<le> n \<and> n < 2 * 2 ^ nat (ilog2 n)"
proof (induction n rule: ilog2.induct)
  case (1 n)
  show ?case
  proof (cases "n < 2")
    case True
    with "1.prems" have "n = 1" by simp
    then show ?thesis by (subst (1 2) ilog2.simps) simp
  next
    case False
    then have h: "1 \<le> n div 2" by simp
    let ?k = "nat (ilog2 (n div 2))"
    from "1.IH" [OF False h] have ih: "2 ^ ?k \<le> n div 2" "n div 2 < 2 * 2 ^ ?k" by simp_all
    have il: "ilog2 n = 1 + ilog2 (n div 2)" using False by (subst ilog2.simps) simp
    have k: "nat (ilog2 n) = Suc ?k" using ilog2_nonneg [of "n div 2"] by (simp add: il)
    have "2 * (n div 2) \<le> n" by simp
    moreover have "n < 2 * (n div 2) + 2" by presburger
    ultimately show ?thesis using ih by (simp add: k)
  qed
qed

lemma rne_div_half:
  assumes "0 < q"
  shows "\<bar>real_of_int (rne_div p q) - real_of_int p / real_of_int q\<bar> \<le> 1 / 2"
proof -
  let ?d = "p div q" and ?r = "p mod q"
  have p: "real_of_int p = real_of_int ?d * real_of_int q + real_of_int ?r"
    by (metis mult.commute mult_div_mod_eq of_int_add of_int_mult)
  have r: "0 \<le> ?r" "?r < q" using assms by simp_all
  have frac: "real_of_int p / real_of_int q = real_of_int ?d + real_of_int ?r / real_of_int q"
    using assms by (simp add: p field_simps)
  show ?thesis
  proof (cases "2 * ?r < q \<or> (2 * ?r = q \<and> even ?d)")
    case True
    then have m: "rne_div p q = ?d" by (simp add: rne_div_def Let_def)
    from True have "2 * ?r \<le> q" by auto
    then have "2 * real_of_int ?r \<le> real_of_int q" by (metis of_int_le_iff of_int_mult of_int_numeral)
    then have "real_of_int ?r / real_of_int q \<le> 1 / 2" using assms by (simp add: field_simps)
    moreover have "0 \<le> real_of_int ?r / real_of_int q" using r assms by simp
    ultimately show ?thesis by (simp add: m frac)
  next
    case False
    then have m: "rne_div p q = ?d + 1" by (simp add: rne_div_def Let_def)
    from False have "q \<le> 2 * ?r" by auto
    then have "real_of_int q \<le> 2 * real_of_int ?r" by (metis of_int_le_iff of_int_mult of_int_numeral)
    then have "1 / 2 \<le> real_of_int ?r / real_of_int q" using assms by (simp add: field_simps)
    moreover have "real_of_int ?r \<le> real_of_int q" using r by simp
    then have "real_of_int ?r / real_of_int q \<le> 1" using assms by (simp add: field_simps)
    ultimately show ?thesis by (simp add: m frac)
  qed
qed

lemma rne_div_between:
  assumes "0 < q" and "lo * q \<le> p" and "p < hi * q"
  shows "lo \<le> rne_div p q \<and> rne_div p q \<le> hi"
proof -
  have "(lo * q) div q \<le> p div q" using assms(2, 1) by (rule zdiv_mono1)
  then have lo: "lo \<le> p div q" using assms(1) by simp
  have below: "(p div q) * q \<le> p"
  proof -
    have "p = (p div q) * q + p mod q" by simp
    moreover have "0 \<le> p mod q" using assms(1) by simp
    ultimately show ?thesis by linarith
  qed
  have hi: "p div q < hi"
  proof (rule ccontr)
    assume "\<not> p div q < hi"
    then have "hi * q \<le> (p div q) * q" using assms(1) by (simp add: mult_right_mono)
    with below assms(3) show False by linarith
  qed
  have "rne_div p q = p div q \<or> rne_div p q = p div q + 1"
    by (simp add: rne_div_def Let_def)
  with lo hi show ?thesis by auto
qed

lemma powi_nat: "0 \<le> k \<Longrightarrow> (2::real) powi k = 2 ^ nat k"
  by (simp add: power_int_def)

lemma ilog2_real_bounds:
  assumes "1 \<le> n"
  shows "(2::real) powi ilog2 n \<le> real_of_int n \<and> real_of_int n < 2 * 2 powi ilog2 n"
proof -
  from ilog2_bounds [OF assms] have b: "2 ^ nat (ilog2 n) \<le> n" "n < 2 * 2 ^ nat (ilog2 n)"
    by simp_all
  from b(1) have "real_of_int (2 ^ nat (ilog2 n)) \<le> real_of_int n" by (simp only: of_int_le_iff)
  then have lo: "(2::real) ^ nat (ilog2 n) \<le> real_of_int n" by simp
  from b(2) have "real_of_int n < real_of_int (2 * 2 ^ nat (ilog2 n))" by (simp only: of_int_less_iff)
  then have hi: "real_of_int n < 2 * (2::real) ^ nat (ilog2 n)" by simp
  from lo hi show ?thesis by (simp add: powi_nat ilog2_nonneg)
qed

lemma frac_exponent_bounds:
  assumes "0 < a" and "0 < b"
  shows "2 powi frac_exponent a b \<le> real_of_int a / real_of_int b \<and>
         real_of_int a / real_of_int b < 2 powi (frac_exponent a b + 1)"
proof -
  let ?la = "ilog2 a" and ?lb = "ilog2 b"
  let ?x = "real_of_int a / real_of_int b"
  let ?e0 = "?la - ?lb"
  from assms have a1: "1 \<le> a" and b1: "1 \<le> b" by simp_all
  from ilog2_real_bounds [OF a1] have ra: "2 powi ?la \<le> real_of_int a" "real_of_int a < 2 * 2 powi ?la"
    by simp_all
  from ilog2_real_bounds [OF b1] have rb: "2 powi ?lb \<le> real_of_int b" "real_of_int b < 2 * 2 powi ?lb"
    by simp_all
  have rbpos: "0 < real_of_int b" using assms by simp
  have e0: "(2::real) powi ?e0 = 2 powi ?la / 2 powi ?lb"
    by (simp add: power_int_diff)
  have pl: "(0::real) < 2 powi ?lb" "(0::real) < 2 powi ?la" by simp_all
  have upper: "?x < 2 powi (?e0 + 1)"
  proof -
    have "?x < (2 * 2 powi ?la) / 2 powi ?lb"
    proof (rule frac_less)
      show "0 \<le> real_of_int a" using assms by simp
      show "real_of_int a < 2 * 2 powi ?la" by (rule ra(2))
      show "(0::real) < 2 powi ?lb" by (rule pl(1))
      show "2 powi ?lb \<le> real_of_int b" by (rule rb(1))
    qed
    also have "\<dots> = 2 powi (?e0 + 1)" by (simp add: power_int_add e0)
    finally show ?thesis .
  qed
  have lower: "2 powi (?e0 - 1) < ?x"
  proof -
    have "2 powi ?la / (2 * 2 powi ?lb) < ?x"
    proof (rule frac_less2)
      show "(0::real) < 2 powi ?la" by (rule pl(2))
      show "2 powi ?la \<le> real_of_int a" by (rule ra(1))
      show "0 < real_of_int b" by (rule rbpos)
      show "real_of_int b < 2 * 2 powi ?lb" by (rule rb(2))
    qed
    moreover have "2 powi ?la / (2 * 2 powi ?lb) = (2::real) powi (?e0 - 1)"
      by (simp add: power_int_diff e0)
    ultimately show ?thesis by simp
  qed
  have test: "(if 0 \<le> ?e0 then b * 2 ^ nat ?e0 \<le> a else b \<le> a * 2 ^ nat (- ?e0))
                \<longleftrightarrow> 2 powi ?e0 \<le> ?x"
  proof (cases "0 \<le> ?e0")
    case True
    have "(b * 2 ^ nat ?e0 \<le> a) \<longleftrightarrow> (real_of_int (b * 2 ^ nat ?e0) \<le> real_of_int a)"
      by (simp only: of_int_le_iff)
    also have "\<dots> \<longleftrightarrow> 2 ^ nat ?e0 * real_of_int b \<le> real_of_int a"
      by (simp add: mult.commute)
    also have "\<dots> \<longleftrightarrow> 2 ^ nat ?e0 \<le> ?x"
      using rbpos by (simp add: pos_le_divide_eq)
    finally show ?thesis using True by (simp add: powi_nat)
  next
    case False
    let ?n = "nat (- ?e0)"
    have p: "(2::real) powi ?e0 = 1 / 2 ^ ?n"
      using False by (simp add: power_int_def power_one_over)
    have "(b \<le> a * 2 ^ ?n) \<longleftrightarrow> real_of_int b \<le> real_of_int (a * 2 ^ ?n)"
      by (simp only: of_int_le_iff)
    also have "\<dots> \<longleftrightarrow> real_of_int b \<le> real_of_int a * 2 ^ ?n"
      by simp
    also have "\<dots> \<longleftrightarrow> 1 / 2 ^ ?n \<le> ?x"
      using rbpos by (simp add: field_simps)
    finally show ?thesis using False by (simp add: p)
  qed
  show ?thesis
    using test upper lower
    by (auto simp: frac_exponent_def Let_def)
qed

lemma double_of_frac_nearest:
  assumes "0 < a" and "0 < b" and "double_of_frac a b = (m, e)"
  shows "2 ^ 52 \<le> m \<and> m \<le> 2 ^ 53 \<and>
         \<bar>real_of_int m * 2 powi e - real_of_int a / real_of_int b\<bar> \<le> 2 powi e / 2"
proof -
  let ?x = "real_of_int a / real_of_int b"
  let ?fe = "frac_exponent a b"
  from assms(3) have e: "e = ?fe - 52" by (auto simp: double_of_frac_def Let_def)
  from frac_exponent_bounds [OF assms(1, 2)] have fe: "2 powi ?fe \<le> ?x" "?x < 2 powi (?fe + 1)"
    by simp_all
  have pe: "(0::real) < 2 powi e" by simp
  define y where "y = ?x / 2 powi e"
  have y: "2 ^ 52 \<le> y" "y < 2 ^ 53"
  proof -
    have "(2::real) powi ?fe = 2 ^ 52 * 2 powi e" by (simp add: e power_int_diff)
    with fe(1) have "2 ^ 52 * 2 powi e \<le> ?x" by (simp only:)
    then show "2 ^ 52 \<le> y" unfolding y_def using pe by (simp only: pos_le_divide_eq)
    have "(2::real) powi (?fe + 1) = 2 ^ 53 * 2 powi e" by (simp add: e power_int_add power_int_diff)
    with fe(2) have "?x < 2 ^ 53 * 2 powi e" by (simp only:)
    then show "y < 2 ^ 53" unfolding y_def using pe by (simp only: pos_divide_less_eq)
  qed
  obtain p q where q: "0 < q" and m: "m = rne_div p q"
    and pq: "real_of_int p / real_of_int q = y"
  proof (cases "0 \<le> e")
    case True
    have "real_of_int a / real_of_int (b * 2 ^ nat e) = y"
      using True by (simp add: y_def powi_nat)
    moreover have "m = rne_div a (b * 2 ^ nat e)"
      using assms(3) True by (auto simp: double_of_frac_def Let_def)
    moreover have "0 < b * 2 ^ nat e" using assms(2) by simp
    ultimately show ?thesis using that by blast
  next
    case False
    have "(2::real) powi e = 1 / 2 ^ nat (- e)"
      using False by (simp add: power_int_def power_one_over)
    then have "real_of_int (a * 2 ^ nat (- e)) / real_of_int b = y"
      by (simp add: y_def)
    moreover have "m = rne_div (a * 2 ^ nat (- e)) b"
      using assms(3) False by (auto simp: double_of_frac_def Let_def)
    ultimately show ?thesis using that assms(2) by blast
  qed
  have rq: "0 < real_of_int q" using q by simp
  have "real_of_int (2 ^ 52 * q) \<le> real_of_int p"
    using y(1) rq by (simp add: pq [symmetric] pos_le_divide_eq)
  then have lo: "2 ^ 52 * q \<le> p" by (simp only: of_int_le_iff)
  have "real_of_int p < real_of_int (2 ^ 53 * q)"
    using y(2) rq by (simp add: pq [symmetric] pos_divide_less_eq)
  then have hi: "p < 2 ^ 53 * q" by (simp only: of_int_less_iff)
  from rne_div_between [OF q lo hi] have mb: "2 ^ 52 \<le> m" "m \<le> 2 ^ 53" by (simp_all add: m)
  from rne_div_half [OF q, of p] have "\<bar>real_of_int m - y\<bar> \<le> 1 / 2" by (simp add: m pq)
  then have "\<bar>real_of_int m - y\<bar> * 2 powi e \<le> 1 / 2 * 2 powi e"
    using pe by (simp add: mult_right_mono)
  moreover have "\<bar>real_of_int m - y\<bar> * 2 powi e = \<bar>real_of_int m * 2 powi e - ?x\<bar>"
  proof -
    have "\<bar>real_of_int m - y\<bar> * 2 powi e = \<bar>(real_of_int m - y) * 2 powi e\<bar>"
      using pe by (simp add: abs_mult)
    also have "(real_of_int m - y) * 2 powi e = real_of_int m * 2 powi e - ?x"
      using pe by (simp add: y_def algebra_simps)
    finally show ?thesis .
  qed
  ultimately show ?thesis using mb by simp
qed

lemma rne_div_tie_even:
  assumes "2 * (p mod q) = q"
  shows "even (rne_div p q)"
  using assms by (simp add: rne_div_def Let_def)

lemma py_truediv_nearest:
  assumes "0 < a" and "0 < b" and "py_truediv a b = (m, e)"
  shows "2 ^ 52 \<le> m \<and> m \<le> 2 ^ 53 \<and>
         \<bar>real_of_int m * 2 powi e - real_of_int a / real_of_int b\<bar> \<le> 2 powi e / 2"
proof -
  from assms(3) have "double_of_frac a b = (m, e)" by (simp add: py_truediv_def)
  with assms(1, 2) show ?thesis by (rule double_of_frac_nearest)
qed

lemma py_float_mul_int_nearest:
  assumes "0 < m" and "0 < k" and "py_float_mul_int (m, e) k = (m', e')"
  shows "2 ^ 52 \<le> m' \<and> m' \<le> 2 ^ 53 \<and>
         \<bar>real_of_int m' * 2 powi e' - real_of_int m * 2 powi e * real_of_int k\<bar> \<le> 2 powi e' / 2"
proof (cases "0 \<le> e")
  case True
  with assms(3) have d: "double_of_frac (m * k * 2 ^ nat e) 1 = (m', e')"
    by (simp add: py_float_mul_int_def)
  have pos: "0 < m * k * 2 ^ nat e" "(0::int) < 1" using assms(1, 2) by simp_all
  have eq: "real_of_int (m * k * 2 ^ nat e) / real_of_int 1 = real_of_int m * 2 powi e * real_of_int k"
    using True by (simp add: powi_nat)
  from double_of_frac_nearest [OF pos d] show ?thesis unfolding eq .
next
  case False
  with assms(3) have d: "double_of_frac (m * k) (2 ^ nat (- e)) = (m', e')"
    by (simp add: py_float_mul_int_def)
  have pos: "0 < m * k" "(0::int) < 2 ^ nat (- e)" using assms(1, 2) by simp_all
  have "(2::real) powi e = 1 / 2 ^ nat (- e)"
    using False by (simp add: power_int_def power_one_over)
  then have eq: "real_of_int (m * k) / real_of_int (2 ^ nat (- e)) = real_of_int m * 2 powi e * real_of_int k"
    by simp
  from double_of_frac_nearest [OF pos d] show ?thesis unfolding eq .
qed

lemma py_int_of_float_floor:
  "py_int_of_float (m, e) = \<lfloor>real_of_int m * 2 powi e\<rfloor>"
proof (cases "0 \<le> e")
  case True
  then have "real_of_int m * 2 powi e = real_of_int (m * 2 ^ nat e)" by (simp add: powi_nat)
  then show ?thesis using True by (simp add: py_int_of_float_def del: of_int_mult of_int_power)
next
  case False
  have "(2::real) powi e = 1 / 2 ^ nat (- e)"
    using False by (simp add: power_int_def power_one_over)
  then have "real_of_int m * 2 powi e = real_of_int m / real_of_int (2 ^ nat (- e))" by simp
  then have "\<lfloor>real_of_int m * 2 powi e\<rfloor> = m div 2 ^ nat (- e)"
    by (simp only: floor_divide_of_int_eq)
  then show ?thesis using False by (simp add: py_int_of_float_def)
qed

text \<open>
  The float model agrees with CPython on sample values (as \<open>float.hex\<close> and the format
  \<open>.1f\<close> print them): the quotients \<open>1/10\<close>, \<open>1/365\<close> and \<open>308/365\<close>, products with 20
  and 100, and the percentages "0.3", "84.4" and "100.0".
\<close>

lemma float_model_known_values:
  "py_truediv 1 10 = (7205759403792794, - 56) \<and>
   py_truediv 1 365 = (6317378107434778, - 61) \<and>
   py_truediv 308 365 = (7600595535507467, - 53) \<and>
   py_float_mul_int (py_truediv 1 365) 20 = (7896722634293472, - 57) \<and>
   py_float_mul_int (py_truediv 219 365) 20 = (6755399441055744, - 49) \<and>
   py_float_mul_int (py_truediv 308 365) 100 = (5937965262115209, - 46) \<and>
   py_int_of_float (py_float_mul_int (py_truediv 308 365) 20) = 16"
  by code_simp

lemma float_format_known_values:
  "py_format_1f (progress_percent 1 365) = asc ''0.3'' \<and>
   py_format_1f (progress_percent 308 365) = asc ''84.4'' \<and>
   py_format_1f (progress_percent 366 366) = asc ''100.0''"
  by code_simp

subsection \<open>Year progress\<close>

lemma filled_blocks_365:
  "list_all (\<lambda>d. filled_blocks d 365 = (20 * d) div 365) [1..365]"
  by code_simp

lemma filled_blocks_366:
  "list_all (\<lambda>d. filled_blocks d 366 = (20 * d) div 366) [1..366]"
  by code_simp

lemma filled_blocks_exact:
  assumes "1 \<le> d" and "d \<le> total_days y"
  shows "filled_blocks d (total_days y) = (20 * d) div total_days y"
proof (cases "is_leap_year y")
  case True
  with assms have "d \<in> set [1..366]" by (simp add: total_days_def)
  with filled_blocks_366 show ?thesis using True
    by (simp add: list_all_iff total_days_def del: set_upto)
next
  case False
  with assms have "d \<in> set [1..365]" by (simp add: total_days_def)
  with filled_blocks_365 show ?thesis using False
    by (simp add: list_all_iff total_days_def del: set_upto)
qed

lemma length_progress_bar:
  assumes "0 \<le> filled_blocks d t" and "filled_blocks d t \<le> 20"
  shows "length (progress_bar d t) = 20"
  using assms by (simp add: progress_bar_def empty_blocks_def progress_bar_width_def)

text \<open>
  C9.  For every year \<open>y\<close> the resolver takes \<open>y\<close> for a leap year, with 366 days and
  otherwise 365, exactly when 4 divides \<open>y\<close> and 100 does not divide \<open>y\<close> or 400 does.
  For every day of the year \<open>d\<close> from 1 to the total number of days, the number of filled
  blocks that the float computation of the program yields is the floor of
  \<open>d / total_days * 20\<close>, and the rendered progress text starts with a bar of exactly 20
  slots: that many full blocks, the remaining slots light shade.
\<close>

theorem year_progress_leap_rule_and_bar:
  "(is_leap_year y \<longleftrightarrow> 4 dvd y \<and> (\<not> 100 dvd y \<or> 400 dvd y)) \<and>
   total_days y = (if 4 dvd y \<and> (\<not> 100 dvd y \<or> 400 dvd y) then 366 else 365) \<and>
   (dt_year now = y \<and> dt_day_of_year now = d \<and> 1 \<le> d \<and> d \<le> total_days y \<longrightarrow>
      filled_blocks d (total_days y) = \<lfloor>real_of_int d / real_of_int (total_days y) * 20\<rfloor> \<and>
      length (progress_bar d (total_days y)) = 20 \<and>
      take 20 (get_year_progress now) =
        replicate (nat \<lfloor>real_of_int d / real_of_int (total_days y) * 20\<rfloor>) 9608 @
        replicate (20 - nat \<lfloor>real_of_int d / real_of_int (total_days y) * 20\<rfloor>) 9617)"
proof -
  have leap: "is_leap_year y \<longleftrightarrow> 4 dvd y \<and> (\<not> 100 dvd y \<or> 400 dvd y)"
    by (simp add: is_leap_year_def dvd_eq_mod_eq_0)
  have days: "total_days y = (if 4 dvd y \<and> (\<not> 100 dvd y \<or> 400 dvd y) then 366 else 365)"
    by (simp add: total_days_def leap)
  have bar: "filled_blocks d (total_days y) = \<lfloor>real_of_int d / real_of_int (total_days y) * 20\<rfloor> \<and>
      length (progress_bar d (total_days y)) = 20 \<and>
      take 20 (get_year_progress now) =
        replicate (nat \<lfloor>real_of_int d / real_of_int (total_days y) * 20\<rfloor>) 9608 @
        replicate (20 - nat \<lfloor>real_of_int d / real_of_int (total_days y) * 20\<rfloor>) 9617"
    if now: "dt_year now = y" "dt_day_of_year now = d" and d: "1 \<le> d" "d \<le> total_days y"
  proof -
    let ?t = "total_days y"
    have t_pos: "0 < ?t" by (simp add: total_days_def)
    have "real_of_int d / real_of_int ?t * 20 = real_of_int (20 * d) / real_of_int ?t"
      by simp
    then have fl: "\<lfloor>real_of_int d / real_of_int ?t * 20\<rfloor> = (20 * d) div ?t"
      by (simp only: floor_divide_of_int_eq)
    have fb: "filled_blocks d ?t = (20 * d) div ?t"
      using d by (rule filled_blocks_exact)
    have lo: "0 \<le> (20 * d) div ?t"
      using d t_pos by (simp add: pos_imp_zdiv_nonneg_iff)
    have "20 * d \<le> 20 * ?t" using d by simp
    then have "(20 * d) div ?t \<le> (20 * ?t) div ?t" by (rule zdiv_mono1) (rule t_pos)
    then have hi: "(20 * d) div ?t \<le> 20" using t_pos by simp
    have len: "length (progress_bar d ?t) = 20"
      using lo hi by (intro length_progress_bar) (simp_all add: fb)
    have nat_empty: "nat (empty_blocks d ?t) = 20 - nat ((20 * d) div ?t)"
      using lo hi by (simp add: empty_blocks_def progress_bar_width_def fb)
    have bar_eq: "progress_bar d ?t =
        replicate (nat ((20 * d) div ?t)) 9608 @ replicate (20 - nat ((20 * d) div ?t)) 9617"
      by (simp add: progress_bar_def fb nat_empty)
    have "take 20 (get_year_progress now) = progress_bar d ?t"
      using len by (simp add: get_year_progress_def Let_def now)
    with fb fl len bar_eq show ?thesis by simp
  qed
  from leap days bar show ?thesis by blast
qed

text \<open>Year 2025, day 219: the exact quotient \<open>219 / 365 * 20\<close> is the integer 12.\<close>

theorem year_progress_leap_rule_and_bar_witness:
  "\<not> is_leap_year 2025 \<and> total_days 2025 = 365 \<and> is_leap_year 2024 \<and> \<not> is_leap_year 1900 \<and>
   is_leap_year 2000 \<and>
   filled_blocks 219 365 = 12 \<and>
   take 20 (get_year_progress
      \<lparr>dt_year = 2025, dt_month = 8, dt_day = 7, dt_hour = 6, dt_day_of_year = 219\<rparr>) =
     replicate 12 9608 @ replicate 8 9617"
proof -
  let ?now = "\<lparr>dt_year = 2025, dt_month = 8, dt_day = 7, dt_hour = 6, dt_day_of_year = 219\<rparr>"
  have days: "total_days 2025 = 365" by (simp add: total_days_def is_leap_year_def)
  have fl: "\<lfloor>real_of_int 219 / real_of_int 365 * 20\<rfloor> = 12" by simp
  have "filled_blocks 219 365 = 12 \<and>
    take 20 (get_year_progress ?now) = replicate 12 9608 @ replicate 8 9617"
    using year_progress_leap_rule_and_bar [of 2025 ?now 219] by (simp add: days fl)
  moreover have "\<not> is_leap_year 2025 \<and> is_leap_year 2024 \<and> \<not> is_leap_year 1900 \<and> is_leap_year 2000"
    by (simp add: is_leap_year_def)
  ultimately show ?thesis using days by simp
qed

subsection \<open>Idempotency gate\<close>

lemma get_today_get_up_status_nonempty:
  assumes "comments \<noteq> []"
  shows "get_today_get_up_status tz comments now =
    PyBool (dt_day (tz (c_created_at (last comments))) = dt_day now \<and>
            dt_month (tz (c_created_at (last comments))) = dt_month now)"
  using assms by (simp add: get_today_get_up_status_def Let_def)

lemma get_today_get_up_status_ignores_year:
  assumes "comments \<noteq> []"
  shows "get_today_get_up_status tz comments (now\<lparr>dt_year := y\<rparr>) =
         get_today_get_up_status tz comments now"
  using assms by (simp add: get_today_get_up_status_def)

text \<open>
  C1.  For an empty comment list the gate is meant to answer "not run today", a false
  value, as it does for a non-empty list whose latest comment is of another day.  The
  code returns the tuple \<open>(False, [])\<close> there, and a tuple of two elements is true for
  Python, so the test \<open>if is_today:\<close> in \<open>main\<close> takes it for "already run".  For a
  non-empty list the result is the equality of day and month of the latest comment with
  today, whatever the year (the two lemmas above).
\<close>

theorem get_today_get_up_status_empty_truthy:
  "get_today_get_up_status tz [] now = PyTuple [PyBool False, PyList []] \<and>
   truthy (get_today_get_up_status tz [] now)"
  by (simp add: get_today_get_up_status_def)

subsection \<open>The run\<close>

lemma find_get_up_bound:
  "find_get_up is k0 = Some k \<Longrightarrow> k0 \<le> k \<and> k < k0 + length is"
  by (induction "is" arbitrary: k0) (fastforce split: if_splits)+

lemma gate_passed_issue_exists:
  assumes "gate_passed ex w"
  obtains k where "obtain_issue ex w = Some (k, w)" and "k < length (open_issues w)"
    and "i_comments (open_issues w ! k) \<noteq> []"
proof -
  from assms obtain k w1 where o: "obtain_issue ex w = Some (k, w1)"
    and nt: "\<not> truthy (get_today_get_up_status (to_local ex)
                      (i_comments (open_issues w1 ! k)) (now_gate ex))"
    by (auto simp: gate_passed_def split: option.splits)
  have ne: "i_comments (open_issues w1 ! k) \<noteq> []"
    using nt by (auto simp: get_today_get_up_status_def)
  have found: "find_get_up (open_issues w) 0 = Some k \<and> w1 = w"
    using o ne by (auto simp: obtain_issue_def Let_def split: if_splits option.splits)
  then have "k < length (open_issues w)"
    using find_get_up_bound [of "open_issues w" 0 k] by simp
  with found o ne that show thesis by simp
qed

lemma main_fresh_issue_never_records:
  assumes "repo_ok ex" and "get_comments_ok ex"
    and "obtain_issue ex w = Some (k, w1)" and "i_comments (open_issues w1 ! k) = []"
  shows "main cfg ex w = (AlreadyRecorded, w1)"
  using assms by (simp add: main_def get_today_get_up_status_def)

lemma main_early_records:
  assumes "gate_passed ex w" and "is_get_up_early (now_message ex)"
    and "telebot_ok ex" and "telegram_ok ex" and "dingtalk_ok ex" and "create_comment_ok ex"
    and "tele_token cfg \<noteq> []" and "tele_chat_id cfg \<noteq> []" and "dingtalk_webhook cfg \<noteq> []"
    and "main cfg ex w = (r, w')"
  shows "r = Recorded \<and>
         telegram_sent w' = telegram_sent w @ [markdownify ex (digest_body ex)] \<and>
         dingtalk_sent w' = dingtalk_sent w @ [digest_body ex] \<and>
         (\<exists>k < length (open_issues w).
            open_issues w' = (open_issues w)
              [k := (open_issues w ! k)
                 \<lparr>i_comments := i_comments (open_issues w ! k) @
                    [\<lparr>c_created_at = comment_stamp ex,
                      c_body = remove_github_links (digest_body ex)\<rparr>]\<rparr>])"
proof -
  from assms(1) obtain k where o: "obtain_issue ex w = Some (k, w)"
    and k: "k < length (open_issues w)" by (rule gate_passed_issue_exists)
  from assms(1) o have g: "repo_ok ex" "get_comments_ok ex"
    "\<not> truthy (get_today_get_up_status (to_local ex) (i_comments (open_issues w ! k)) (now_gate ex))"
    by (simp_all add: gate_passed_def)
  from assms(2-10) o g k show ?thesis
    by (auto simp: main_def Let_def create_comment_def)
qed

text \<open>
  C10.  For every run that passes the idempotency gate: when the hour read by
  \<open>make_get_up_message\<close> is not between 3 and 9 inclusive, the run ends as "woke late"
  and the world is unchanged (nothing delivered to Telegram or DingTalk, no comment and
  no issue created); so whenever anything was delivered or the issues changed, the hour
  was between 3 and 9.
\<close>

theorem main_dispatches_only_when_early:
  assumes "gate_passed ex w" and "main cfg ex w = (r, w')"
  shows "(\<not> (3 \<le> dt_hour (now_message ex) \<and> dt_hour (now_message ex) \<le> 9) \<longrightarrow>
            r = WokeLate \<and> w' = w) \<and>
         (telegram_sent w' \<noteq> telegram_sent w \<or> dingtalk_sent w' \<noteq> dingtalk_sent w \<or>
          open_issues w' \<noteq> open_issues w \<longrightarrow>
            3 \<le> dt_hour (now_message ex) \<and> dt_hour (now_message ex) \<le> 9)"
proof -
  from assms(1) obtain k where o: "obtain_issue ex w = Some (k, w)"
    by (rule gate_passed_issue_exists)
  from assms(1) o have g: "repo_ok ex" "get_comments_ok ex"
    "\<not> truthy (get_today_get_up_status (to_local ex) (i_comments (open_issues w ! k)) (now_gate ex))"
    by (simp_all add: gate_passed_def)
  have late: "r = WokeLate \<and> w' = w"
    if "\<not> (3 \<le> dt_hour (now_message ex) \<and> dt_hour (now_message ex) \<le> 9)"
    using that assms(2) o g by (auto simp: main_def is_get_up_early_def)
  then show ?thesis by blast
qed

lemma example_gate_passed: "gate_passed (example_env h) example_world"
  by (simp add: gate_passed_def obtain_issue_def example_env_def example_world_def
      get_today_get_up_status_def asc_def)

lemma example_run_late:
  "main example_config (example_env 10) example_world = (WokeLate, example_world)"
  by (simp add: main_def obtain_issue_def example_env_def example_world_def
      get_today_get_up_status_def is_get_up_early_def asc_def)

lemma example_run_early:
  "main example_config (example_env 7) example_world =
     (Recorded,
      \<lparr>open_issues =
         [\<lparr>i_title = asc ''notes'', i_comments = []\<rparr>,
          \<lparr>i_title = asc ''GET UP'',
           i_comments = [\<lparr>c_created_at = 100, c_body = asc ''up at 6''\<rparr>,
                         \<lparr>c_created_at = 200, c_body = asc ''see repo''\<rparr>]\<rparr>],
       telegram_sent = [asc ''see [repo](https://github.com/o/r)''],
       dingtalk_sent = [asc ''see [repo](https://github.com/o/r)'']\<rparr>)"
  by (simp add: main_def obtain_issue_def example_env_def example_world_def example_config_def
      get_today_get_up_status_def is_get_up_early_def asc_def create_comment_def
      match_github_link_def)

text \<open>
  With no comment on the issue the run stops at the gate at any hour, seven o'clock
  included: nothing is sent and nothing is recorded.
\<close>

lemma example_run_fresh_issue:
  "main example_config (example_env 7) fresh_world = (AlreadyRecorded, fresh_world)"
  by (simp add: main_def obtain_issue_def example_env_def fresh_world_def
      get_today_get_up_status_def asc_def)

theorem main_dispatches_only_when_early_witness:
  "gate_passed (example_env 10) example_world \<and>
   main example_config (example_env 10) example_world = (WokeLate, example_world) \<and>
   dt_hour (now_message (example_env 10)) = 10 \<and>
   telegram_sent example_world = [] \<and> dingtalk_sent example_world = []"
proof -
  have g: "gate_passed (example_env 10) example_world" by (rule example_gate_passed)
  have "main example_config (example_env 10) example_world
      = (fst (main example_config (example_env 10) example_world),
         snd (main example_config (example_env 10) example_world))" by simp
  from main_dispatches_only_when_early [OF g this]
  have "fst (main example_config (example_env 10) example_world) = WokeLate \<and>
        snd (main example_config (example_env 10) example_world) = example_world"
    by (simp add: example_env_def)
  then have "main example_config (example_env 10) example_world = (WokeLate, example_world)"
    by (simp add: prod_eq_iff)
  with g show ?thesis by (simp add: example_env_def example_world_def)
qed

subsection \<open>Event stream\<close>

lemma process_events_loop_stops_at_old:
  assumes "e_created_at old < ystart"
  shows "process_events_loop (pre @ old # rest) ystart yend acc =
         process_events_loop pre ystart yend acc"
  using assms by (induction pre arbitrary: acc) (simp_all split: option.splits)

lemma process_events_stops_at_old:
  assumes "e_created_at old < ystart"
  shows "process_events (pre @ old # rest) ystart yend = process_events pre ystart yend"
proof (cases "length pre < 100")
  case True
  then have "take 100 (pre @ old # rest) = pre @ old # take (99 - length pre) rest"
    by (simp add: take_Cons')
  moreover from True have "take 100 pre = pre" by simp
  ultimately show ?thesis
    using assms by (simp add: process_events_def process_events_loop_stops_at_old)
next
  case False
  then show ?thesis by (simp add: process_events_def)
qed

lemma pages_loop_requested:
  "\<exists>qs. snd (pages_loop fetch ystart yend ps acc req) = req @ qs \<and> prefix qs ps \<and>
        (\<forall>p \<in> set (butlast qs). \<forall>evs. fetch p = Data evs \<longrightarrow> 30 \<le> length evs)"
proof (induction ps arbitrary: acc req)
  case Nil
  show ?case by simp
next
  case (Cons page later)
  show ?case
  proof (cases "fetch page")
    case (Failed err)
    from Cons.IH [of acc "req @ [page]"] obtain qs where
      qs: "snd (pages_loop fetch ystart yend later acc (req @ [page])) = (req @ [page]) @ qs"
        "prefix qs later"
        "\<forall>p \<in> set (butlast qs). \<forall>evs. fetch p = Data evs \<longrightarrow> 30 \<le> length evs"
      by blast
    have "snd (pages_loop fetch ystart yend (page # later) acc req) = req @ (page # qs)"
      using Failed qs(1) by simp
    moreover have "prefix (page # qs) (page # later)" using qs(2) by simp
    moreover have "\<forall>p \<in> set (butlast (page # qs)). \<forall>evs. fetch p = Data evs \<longrightarrow> 30 \<le> length evs"
      using qs(3) Failed by auto
    ultimately show ?thesis by blast
  next
    case (Data events_data)
    show ?thesis
    proof (cases "events_data = [] \<or> length events_data < 30 \<or>
                  (\<exists>e. process_events events_data ystart yend = Inl e)")
      case True
      then have "snd (pages_loop fetch ystart yend (page # later) acc req) = req @ [page]"
        using Data by (auto split: sum.splits)
      moreover have "prefix [page] (page # later)" by simp
      ultimately show ?thesis by (intro exI [of _ "[page]"]) simp
    next
      case False
      then obtain page_activities where
        pa: "process_events events_data ystart yend = Inr page_activities"
        by (cases "process_events events_data ystart yend") auto
      from Cons.IH [of "acc @ page_activities" "req @ [page]"] obtain qs where
        qs: "snd (pages_loop fetch ystart yend later (acc @ page_activities) (req @ [page]))
               = (req @ [page]) @ qs"
          "prefix qs later"
          "\<forall>p \<in> set (butlast qs). \<forall>evs. fetch p = Data evs \<longrightarrow> 30 \<le> length evs"
        by blast
      have "snd (pages_loop fetch ystart yend (page # later) acc req) = req @ (page # qs)"
        using Data False pa qs(1) by simp
      moreover have "prefix (page # qs) (page # later)" using qs(2) by simp
      moreover have "\<forall>p \<in> set (butlast (page # qs)). \<forall>evs. fetch p = Data evs \<longrightarrow> 30 \<le> length evs"
        using qs(3) Data False by auto
      ultimately show ?thesis by blast
    qed
  qed
qed

lemma consume_event_stream_requested:
  "snd (consume_event_stream fetch ystart yend) =
     1 # (if requests_next fetch ystart yend 1
          then 2 # (if requests_next fetch ystart yend 2 then [3] else [])
          else [])"
  by (auto simp: consume_event_stream_def requests_next_def
      split: api_result.splits sum.splits)

lemma process_events_Nil: "process_events [] ystart yend = Inr []"
  by (simp add: process_events_def)

lemma consume_event_stream_activities:
  assumes "fst (consume_event_stream fetch ystart yend) = Inr acts"
  shows "acts = concat (map (activities_of_page fetch ystart yend)
                         (snd (consume_event_stream fetch ystart yend)))"
  using assms
  by (auto simp: consume_event_stream_def activities_of_page_def process_events_Nil
      split: api_result.splits sum.splits if_splits)

text \<open>
  C2, as amended.  Within one page, once an event older than the window start is
  observed, nothing after it in that page is processed: the page yields what the events
  before it yield.  Across pages the early exit has no effect.  Page 1 is always
  requested; page 2 is requested exactly when the request for page 1 failed or page 1 held
  at least 30 events (and processing it raised no exception), whether or not an old event
  was seen in it; page 3 likewise after page 2; no other page is requested, so at most
  three, and a page that returned fewer than 30 events, or none, is the last one
  requested.  The activities of the stream are those of the requested pages, page after
  page, each page scanned with its own early exit.
\<close>

theorem event_stream_early_exit_is_per_page:
  "(e_created_at old < ystart \<longrightarrow>
      process_events (pre @ old # rest) ystart yend = process_events pre ystart yend) \<and>
   snd (consume_event_stream fetch ystart yend) =
     1 # (if requests_next fetch ystart yend 1
          then 2 # (if requests_next fetch ystart yend 2 then [3] else [])
          else []) \<and>
   (\<forall>acts. fst (consume_event_stream fetch ystart yend) = Inr acts \<longrightarrow>
      acts = concat (map (activities_of_page fetch ystart yend)
                      (snd (consume_event_stream fetch ystart yend)))) \<and>
   (\<exists>k \<le> 3. snd (consume_event_stream fetch ystart yend) = take k [1, 2, 3]) \<and>
   (\<forall>p evs. p \<in> set (butlast (snd (consume_event_stream fetch ystart yend))) \<and>
             fetch p = Data evs \<longrightarrow> 30 \<le> length evs)"
proof -
  from pages_loop_requested [of fetch ystart yend "[1, 2, 3]" "[]" "[]"] obtain qs where
    qs: "snd (consume_event_stream fetch ystart yend) = qs" "prefix qs [1, 2, 3]"
      "\<forall>p \<in> set (butlast qs). \<forall>evs. fetch p = Data evs \<longrightarrow> 30 \<le> length evs"
    by (auto simp: consume_event_stream_def)
  from qs(2) obtain zs where zs: "[1, 2, 3] = qs @ zs"
    by (auto simp: prefix_def)
  have "length qs \<le> length [1 :: nat, 2, 3]"
    using qs(2) by (rule prefix_length_le)
  then have "length qs \<le> 3" by simp
  moreover have "qs = take (length qs) [1, 2, 3]"
    unfolding zs by simp
  ultimately have bound: "\<exists>k \<le> 3. snd (consume_event_stream fetch ystart yend) = take k [1, 2, 3]"
    using qs(1) by blast
  have short: "\<forall>p evs. p \<in> set (butlast (snd (consume_event_stream fetch ystart yend))) \<and>
             fetch p = Data evs \<longrightarrow> 30 \<le> length evs"
    using qs(1, 3) by blast
  have acts: "\<forall>acts. fst (consume_event_stream fetch ystart yend) = Inr acts \<longrightarrow>
      acts = concat (map (activities_of_page fetch ystart yend)
                      (snd (consume_event_stream fetch ystart yend)))"
    using consume_event_stream_activities by blast
  have page: "e_created_at old < ystart \<longrightarrow>
      process_events (pre @ old # rest) ystart yend = process_events pre ystart yend"
    by (simp add: process_events_stops_at_old)
  from page consume_event_stream_requested [of fetch ystart yend] acts bound short
  show ?thesis by (intro conjI)
qed

lemma process_events_example:
  "process_events [star_event, old_event, star_event] 1000 2000 = Inr [render_starred (asc ''o/r'')]"
  by (simp add: process_events_def star_event_def old_event_def asc_def)

lemma short_fetch_requested: "snd (consume_event_stream short_fetch 1000 2000) = [1]"
  by (simp add: consume_event_stream_def short_fetch_def process_events_def star_event_def
      old_event_def asc_def)

lemma process_full_old_page: "process_events (replicate 30 old_event) 1000 2000 = Inr []"
proof -
  have r: "replicate 30 old_event = old_event # replicate 29 old_event"
    by (simp add: eval_nat_numeral)
  show ?thesis unfolding r by (simp add: process_events_def old_event_def)
qed

lemma late_star_requests_next:
  "requests_next late_star_fetch 1000 2000 1 \<and> \<not> requests_next late_star_fetch 1000 2000 2"
  by (simp add: requests_next_def late_star_fetch_def process_full_old_page)

theorem event_stream_early_exit_is_per_page_witness:
  "e_created_at old_event < 1000 \<and>
   process_events ([star_event] @ old_event # [star_event]) 1000 2000
     = process_events [star_event] 1000 2000 \<and>
   process_events [star_event] 1000 2000 = Inr [render_starred (asc ''o/r'')] \<and>
   requests_next late_star_fetch 1000 2000 1 \<and>
   snd (consume_event_stream late_star_fetch 1000 2000) = [1, 2] \<and>
   snd (consume_event_stream short_fetch 1000 2000) = [1] \<and>
   short_fetch 1 = Data [star_event, old_event, star_event]"
proof -
  have old: "e_created_at old_event < 1000" by (simp add: old_event_def)
  note inst = event_stream_early_exit_is_per_page
    [of old_event 1000 "[star_event]" "[star_event]" 2000 late_star_fetch]
  from inst old
  have "process_events ([star_event] @ old_event # [star_event]) 1000 2000
     = process_events [star_event] 1000 2000" by blast
  moreover from inst have "snd (consume_event_stream late_star_fetch 1000 2000) =
     1 # (if requests_next late_star_fetch 1000 2000 1
          then 2 # (if requests_next late_star_fetch 1000 2000 2 then [3] else [])
          else [])" by blast
  then have "snd (consume_event_stream late_star_fetch 1000 2000) = [1, 2]"
    using late_star_requests_next by simp
  moreover have "process_events [star_event] 1000 2000 = Inr [render_starred (asc ''o/r'')]"
    by (simp add: process_events_def star_event_def asc_def)
  ultimately show ?thesis
    using old short_fetch_requested late_star_requests_next by (simp add: short_fetch_def)
qed

text \<open>
  C2 as stated fails: the first event of page 1 is older than the window start, page 1
  is a full page, and the program goes on to request page 2 and turns its event into an
  activity.
\<close>

theorem event_stream_scans_pages_after_old_event:
  "late_star_fetch 1 = Data (replicate 30 old_event) \<and>
   e_created_at old_event < 1000 \<and>
   late_star_fetch 2 = Data [star_event] \<and>
   consume_event_stream late_star_fetch 1000 2000 = (Inr [render_starred (asc ''o/r'')], [1, 2])"
proof -
  have p2: "process_events [star_event] 1000 2000 = Inr [render_starred (asc ''o/r'')]"
    by (simp add: process_events_def star_event_def asc_def)
  have "consume_event_stream late_star_fetch 1000 2000 = (Inr [render_starred (asc ''o/r'')], [1, 2])"
    by (simp add: consume_event_stream_def late_star_fetch_def process_full_old_page p2)
  then show ?thesis by (simp add: late_star_fetch_def old_event_def)
qed

subsection \<open>Activity merger\<close>

lemma dict_fromkeys_snoc:
  "dict_fromkeys (xs @ [x]) =
     (if x \<in> set (dict_fromkeys xs) then dict_fromkeys xs else dict_fromkeys xs @ [x])"
  by (simp add: dict_fromkeys_def)

lemma dict_fromkeys_Nil: "dict_fromkeys [] = []"
  by (simp add: dict_fromkeys_def)

lemma set_dict_fromkeys: "set (dict_fromkeys xs) = set xs"
  by (induction xs rule: rev_induct) (auto simp: dict_fromkeys_snoc dict_fromkeys_Nil)

lemma distinct_dict_fromkeys: "distinct (dict_fromkeys xs)"
  by (induction xs rule: rev_induct) (auto simp: dict_fromkeys_snoc dict_fromkeys_Nil)

text \<open>
  The keys are the elements at the positions of first occurrence, in the order of these
  positions.
\<close>

lemma dict_fromkeys_first_occurrences:
  "dict_fromkeys xs =
     map (\<lambda>i. xs ! i) (filter (\<lambda>i. xs ! i \<notin> set (take i xs)) [0..<length xs])"
proof (induction xs rule: rev_induct)
  case Nil
  show ?case by (simp add: dict_fromkeys_Nil)
next
  case (snoc x xs)
  define P where "P = (\<lambda>i. xs ! i \<notin> set (take i xs))"
  define Q where "Q = (\<lambda>i. (xs @ [x]) ! i \<notin> set (take i (xs @ [x])))"
  have old: "filter Q [0..<length xs] = filter P [0..<length xs]"
    by (rule filter_cong) (auto simp: P_def Q_def nth_append)
  have last: "Q (length xs) \<longleftrightarrow> x \<notin> set xs"
    by (simp add: Q_def)
  have nth: "map (\<lambda>i. (xs @ [x]) ! i) (filter P [0..<length xs])
           = map (\<lambda>i. xs ! i) (filter P [0..<length xs])"
    by (rule map_cong) (auto simp: nth_append)
  have "map (\<lambda>i. (xs @ [x]) ! i) (filter Q [0..<length (xs @ [x])])
      = map (\<lambda>i. xs ! i) (filter P [0..<length xs]) @ (if x \<in> set xs then [] else [x])"
    by (simp add: old last nth)
  also have "\<dots> = dict_fromkeys xs @ (if x \<in> set xs then [] else [x])"
    using snoc.IH by (simp add: P_def)
  also have "\<dots> = dict_fromkeys (xs @ [x])"
    by (simp add: dict_fromkeys_snoc set_dict_fromkeys)
  finally show ?case by (simp only: Q_def)
qed

lemma render_activities_nonempty: "render_activities entries \<noteq> []"
  by (simp add: render_activities_def asc_def)

text \<open>
  C4.  The entries that the merger renders are pairwise different, they are the first 15
  of the first occurrences in the concatenation of the search-based list and the
  event-stream list, in the order of their first occurrence, so at most 15; the text is
  the rendering of these entries, and it is the empty string when the combined list is
  empty.
\<close>

theorem activity_merger_dedup_order_cap:
  "distinct (merge_activities acts) \<and>
   length (merge_activities acts) \<le> 15 \<and>
   set (merge_activities acts) \<subseteq> set acts \<and>
   merge_activities acts =
     take 15 (map (\<lambda>i. acts ! i) (filter (\<lambda>i. acts ! i \<notin> set (take i acts)) [0..<length acts])) \<and>
   (\<forall>stream requested.
      consume_event_stream fetch ystart yend = (Inr stream, requested) \<longrightarrow>
      fst (get_yesterday_github_activity username pr_data issue_data fetch ystart yend) =
        (if search_activities username pr_data issue_data @ stream = [] then []
         else render_activities
                (merge_activities (search_activities username pr_data issue_data @ stream))))"
proof -
  have "distinct (merge_activities acts)"
    by (simp add: merge_activities_def distinct_dict_fromkeys)
  moreover have "length (merge_activities acts) \<le> 15"
    by (simp add: merge_activities_def)
  moreover have "set (merge_activities acts) \<subseteq> set acts"
    using set_take_subset [of 15 "dict_fromkeys acts"]
    by (simp add: merge_activities_def set_dict_fromkeys)
  moreover have "merge_activities acts =
     take 15 (map (\<lambda>i. acts ! i) (filter (\<lambda>i. acts ! i \<notin> set (take i acts)) [0..<length acts]))"
    by (simp only: merge_activities_def dict_fromkeys_first_occurrences [symmetric])
  moreover have "\<forall>stream requested.
      consume_event_stream fetch ystart yend = (Inr stream, requested) \<longrightarrow>
      fst (get_yesterday_github_activity username pr_data issue_data fetch ystart yend) =
        (if search_activities username pr_data issue_data @ stream = [] then []
         else render_activities
                (merge_activities (search_activities username pr_data issue_data @ stream)))"
    by (simp add: get_yesterday_github_activity_def)
  ultimately show ?thesis by blast
qed

lemma short_fetch_stream:
  "consume_event_stream short_fetch 1000 2000 = (Inr [render_starred (asc ''o/r'')], [1])"
  by (simp add: consume_event_stream_def short_fetch_def process_events_example)

lemma example_search_activities:
  "search_activities (asc ''u'') (Data (Some [example_pr, example_pr])) (Failed (asc ''down''))
     = [render_search_item (asc ''pr'') example_pr, render_search_item (asc ''pr'') example_pr]"
  by (simp add: search_activities_def search_items_def process_search_items_def example_pr_def)

lemma example_lines_differ:
  "render_search_item (asc ''pr'') example_pr \<noteq> render_starred (asc ''o/r'')"
  by (simp add: render_search_item_def render_starred_def action_text_def asc_def)

theorem activity_merger_dedup_order_cap_witness:
  "consume_event_stream short_fetch 1000 2000 = (Inr [render_starred (asc ''o/r'')], [1]) \<and>
   fst (get_yesterday_github_activity (asc ''u'') (Data (Some [example_pr, example_pr]))
          (Failed (asc ''down'')) short_fetch 1000 2000) =
     render_activities [render_search_item (asc ''pr'') example_pr, render_starred (asc ''o/r'')] \<and>
   merge_activities
     [render_search_item (asc ''pr'') example_pr, render_search_item (asc ''pr'') example_pr,
      render_starred (asc ''o/r'')] =
     [render_search_item (asc ''pr'') example_pr, render_starred (asc ''o/r'')]"
proof -
  let ?L = "render_search_item (asc ''pr'') example_pr"
  let ?S = "render_starred (asc ''o/r'')"
  have m: "merge_activities [?L, ?L, ?S] = [?L, ?S]"
    using example_lines_differ by (simp add: merge_activities_def dict_fromkeys_def)
  from activity_merger_dedup_order_cap
    [of "[?L, ?L, ?S]" short_fetch 1000 2000 "asc ''u''" "Data (Some [example_pr, example_pr])"
        "Failed (asc ''down'')"]
  have "fst (get_yesterday_github_activity (asc ''u'') (Data (Some [example_pr, example_pr]))
          (Failed (asc ''down'')) short_fetch 1000 2000) =
     render_activities (merge_activities [?L, ?L, ?S])"
    by (simp add: short_fetch_stream example_search_activities)
  with m short_fetch_stream show ?thesis by simp
qed

lemma example_no_activity:
  "fst (get_yesterday_github_activity (asc ''u'') (Data (Some [])) (Failed (asc ''down''))
          (\<lambda>page. Data []) 1000 2000) = []"
  by (simp add: get_yesterday_github_activity_def consume_event_stream_def search_activities_def
      search_items_def process_search_items_def)

subsection \<open>Random choices\<close>

lemma length_FALLBACK: "length FALLBACK_INTERESTING_FACTS = 10"
  by (simp add: FALLBACK_INTERESTING_FACTS_def)

lemma random_choice_FALLBACK:
  "random_choice draw FALLBACK_INTERESTING_FACTS \<in> set FALLBACK_INTERESTING_FACTS"
  unfolding random_choice_def by (rule nth_mem) (simp add: length_FALLBACK)

lemma pool_step_mset:
  assumes "j < length pool"
  shows "add_mset (pool ! j) (mset (butlast (pool[j := last pool]))) = mset pool"
proof -
  from assms obtain xs l where pool: "pool = xs @ [l]"
    by (cases pool rule: rev_cases) auto
  show ?thesis
  proof (cases "j < length xs")
    case True
    then have "xs ! j \<in># mset xs" by simp
    then have "add_mset (xs ! j) (mset xs - {#xs ! j#}) = mset xs" by simp
    with True show ?thesis
      by (simp add: pool list_update_append1 nth_append mset_update)
  next
    case False
    with assms have "j = length xs" by (simp add: pool)
    then show ?thesis by (simp add: pool)
  qed
qed

lemma length_sample_pool: "length (sample_pool pool k draws) = min k (length pool)"
proof (induction k arbitrary: pool draws)
  case 0
  show ?case by simp
next
  case (Suc k)
  show ?case
  proof (cases "pool = []")
    case True
    then show ?thesis by simp
  next
    case False
    then have "0 < length pool" by simp
    then have "Suc (min k (length pool - Suc 0)) = min (Suc k) (length pool)" by arith
    then show ?thesis by (simp add: Suc.IH Let_def False)
  qed
qed

lemma mset_sample_pool: "mset (sample_pool pool k draws) \<subseteq># mset pool"
proof (induction k arbitrary: pool draws)
  case 0
  show ?case by simp
next
  case (Suc k)
  show ?case
  proof (cases "pool = []")
    case True
    then show ?thesis by simp
  next
    case False
    define j where "j = (case draws of [] \<Rightarrow> 0 | d # ds \<Rightarrow> d mod length pool)"
    have j: "j < length pool"
      using False by (simp add: j_def split: list.splits)
    let ?pool' = "butlast (pool[j := last pool])"
    have "mset (sample_pool ?pool' k (tl draws)) \<subseteq># mset ?pool'" by (rule Suc.IH)
    then have "add_mset (pool ! j) (mset (sample_pool ?pool' k (tl draws)))
               \<subseteq># add_mset (pool ! j) (mset ?pool')" by simp
    also have "\<dots> = mset pool" using j by (rule pool_step_mset)
    finally show ?thesis using False by (simp add: j_def Let_def)
  qed
qed

subsection \<open>Selection\<close>

lemma select_events_ok:
  assumes "0 \<le> limit"
  shows "\<exists>selected. select_events filtered limit draws = Inr selected \<and>
           int (length selected) = min limit (int (length filtered)) \<and>
           mset selected \<subseteq># mset filtered \<and>
           sorted_wrt (\<lambda>a b. h_year b \<le> h_year a) selected"
proof -
  let ?k = "min limit (int (length filtered))"
  let ?s = "sample_pool filtered (nat ?k) draws"
  have k: "0 \<le> ?k \<and> ?k \<le> int (length filtered)" using assms by simp
  then have sel: "select_events filtered limit draws = Inr (sort_key (\<lambda>x. - h_year x) ?s)"
    by (simp add: select_events_def random_sample_def)
  have len: "int (length (sort_key (\<lambda>x. - h_year x) ?s)) = ?k"
    using k by (simp add: length_sample_pool)
  have sub: "mset (sort_key (\<lambda>x. - h_year x) ?s) \<subseteq># mset filtered"
    by (simp add: mset_sample_pool)
  have "sorted (map (\<lambda>x. - h_year x) (sort_key (\<lambda>x. - h_year x) ?s))"
    by (rule sorted_sort_key)
  then have "sorted_wrt (\<lambda>a b. h_year b \<le> h_year a) (sort_key (\<lambda>x. - h_year x) ?s)"
    by (simp add: sorted_map)
  with sel len sub show ?thesis by blast
qed

lemma select_events_negative:
  assumes "limit < 0"
  shows "select_events filtered limit draws = Inl ValueError"
  using assms by (simp add: select_events_def random_sample_def)

lemma render_events_lines:
  "render_events lib birth_year events acc = Inr result_lines \<Longrightarrow>
     \<exists>new. result_lines = acc @ new \<and> length new = length events \<and>
       (\<forall>i < length events. render_event lib birth_year (events ! i) = Inr (new ! i))"
proof (induction events arbitrary: acc)
  case Nil
  then show ?case by simp
next
  case (Cons event rest)
  from Cons.prems obtain line where line: "render_event lib birth_year event = Inr line"
    and rest: "render_events lib birth_year rest (acc @ [line]) = Inr result_lines"
    by (auto split: sum.splits)
  from Cons.IH [OF rest] obtain new where
    new: "result_lines = (acc @ [line]) @ new" "length new = length rest"
      "\<forall>i < length rest. render_event lib birth_year (rest ! i) = Inr (new ! i)"
    by blast
  have "\<forall>i < length (event # rest). render_event lib birth_year ((event # rest) ! i) = Inr ((line # new) ! i)"
    using new(3) line by (auto simp: nth_Cons')
  with new(1, 2) show ?case by (intro exI [of _ "line # new"]) simp
qed

lemma render_event_succeeds:
  assumes "opencc_convert lib (strip (replace_newlines (h_text event))) \<noteq> None"
  shows "\<exists>tail. render_event lib birth_year event
           = Inr ([8226, 32, 42, 42] @ str_int (h_year event) @ [24180, 42, 42, 65306] @ tail)"
  using assms by (auto simp: render_event_def Let_def)

lemma render_events_succeeds:
  "\<forall>e \<in> set events. opencc_convert lib (strip (replace_newlines (h_text e))) \<noteq> None \<Longrightarrow>
     \<exists>result_lines. render_events lib birth_year events acc = Inr result_lines"
proof (induction events arbitrary: acc)
  case Nil
  then show ?case by simp
next
  case (Cons event rest)
  from Cons.prems have "opencc_convert lib (strip (replace_newlines (h_text event))) \<noteq> None"
    by simp
  from render_event_succeeds [OF this, of birth_year] obtain line where
    line: "render_event lib birth_year event = Inr line" by blast
  from Cons.prems have "\<forall>e \<in> set rest. opencc_convert lib (strip (replace_newlines (h_text e))) \<noteq> None"
    by simp
  from Cons.IH [OF this, of "acc @ [line]"] line show ?case by simp
qed

subsection \<open>Examples of the normalizers\<close>

lemma baidu_one_events:
  "get_history_today_from_baidu example_lib example_now (baidu_on_0807 baidu_one)
     = [\<lparr>h_year = 1999, h_text = asc ''Event A'', h_wiki_url = None\<rparr>]"
  by (simp add: get_history_today_from_baidu_def baidu_on_0807_def baidu_events_raw_def
      example_now_def pad2_def str_int_def digits_of.simps baidu_one_def baidu_year_def
      bce_marker_def search_digits_def is_digit_def example_lib_def ascii_decimal_def
      py_int_def baidu_text_def match_tag_def asc_def)

lemma baidu_four_events:
  "get_history_today_from_baidu example_lib example_now (baidu_on_0807 baidu_four)
     = [\<lparr>h_year = 2005, h_text = asc ''B'', h_wiki_url = None\<rparr>,
        \<lparr>h_year = 1800, h_text = asc ''old'', h_wiki_url = None\<rparr>,
        \<lparr>h_year = 2010, h_text = asc ''C'', h_wiki_url = None\<rparr>,
        \<lparr>h_year = 1999, h_text = asc ''A'', h_wiki_url = None\<rparr>]"
  by (simp add: get_history_today_from_baidu_def baidu_on_0807_def baidu_events_raw_def
      example_now_def pad2_def str_int_def digits_of.simps baidu_four_def baidu_year_def
      bce_marker_def search_digits_def is_digit_def example_lib_def ascii_decimal_def
      py_int_def baidu_text_def match_tag_def asc_def)

lemma baidu_bce_events:
  "get_history_today_from_baidu example_lib example_now (baidu_on_0807 baidu_bce)
     = [\<lparr>h_year = - 221, h_text = asc ''Qin'', h_wiki_url = None\<rparr>]"
  by (simp add: get_history_today_from_baidu_def baidu_on_0807_def baidu_events_raw_def
      example_now_def pad2_def str_int_def digits_of.simps baidu_bce_def baidu_year_def
      bce_marker_def search_digits_def is_digit_def example_lib_def ascii_decimal_def
      py_int_def baidu_text_def match_tag_def asc_def)

lemma baidu_bce_zero_events:
  "get_history_today_from_baidu example_lib example_now (baidu_on_0807 baidu_bce_zero)
     = [\<lparr>h_year = 0, h_text = asc ''T'', h_wiki_url = None\<rparr>]"
  by (simp add: get_history_today_from_baidu_def baidu_on_0807_def baidu_events_raw_def
      example_now_def pad2_def str_int_def digits_of.simps baidu_bce_zero_def baidu_year_def
      bce_marker_def search_digits_def is_digit_def example_lib_def ascii_decimal_def
      py_int_def baidu_text_def match_tag_def asc_def)

lemma wiki_untitled_events:
  "get_history_today_from_wikimedia example_now wiki_untitled
     = [\<lparr>h_year = 1999, h_text = [], h_wiki_url = Some []\<rparr>]"
  by (simp add: get_history_today_from_wikimedia_def wiki_untitled_def wiki_event_def
      List.map_filter_simps)

lemma wiki_two_events:
  "get_history_today_from_wikimedia example_now wiki_two
     = [\<lparr>h_year = 2001, h_text = asc ''W'', h_wiki_url = Some (asc ''https://w/X'')\<rparr>]"
  by (simp add: get_history_today_from_wikimedia_def wiki_two_def wiki_event_def
      List.map_filter_simps)

lemma wiki_failed_events:
  "get_history_today_from_wikimedia now ConnectionFailed = [] \<and>
   get_history_today_from_wikimedia now (Response False body) = [] \<and>
   get_history_today_from_wikimedia now (Response True None) = []"
  by (simp add: get_history_today_from_wikimedia_def)


subsection \<open>Normalizers\<close>




lemma baidu_events_loop_emits:
  "baidu_events_loop lib raws acc = Inr events \<Longrightarrow>
     \<exists>new. events = acc @ new \<and>
       (\<forall>e \<in> set new. \<exists>raw \<in> set raws.
          baidu_year lib (case b_year raw of None \<Rightarrow> [] | Some y \<Rightarrow> y) = Inr (Some (h_year e)) \<and>
          h_text e = baidu_text raw \<and> h_wiki_url e = None)"
proof (induction raws arbitrary: acc)
  case Nil
  then show ?case by simp
next
  case (Cons raw rest)
  let ?y = "baidu_year lib (case b_year raw of None \<Rightarrow> [] | Some y \<Rightarrow> y)"
  from Cons.prems consider
    (dropped) "?y = Inr None" "baidu_events_loop lib rest acc = Inr events"
  | (kept) year_match where "?y = Inr (Some year_match)"
      "baidu_events_loop lib rest
         (acc @ [\<lparr>h_year = year_match, h_text = baidu_text raw, h_wiki_url = None\<rparr>]) = Inr events"
    by (auto split: sum.splits option.splits)
  then show ?case
  proof cases
    case dropped
    from Cons.IH [OF dropped(2)] show ?thesis by auto
  next
    case kept
    let ?e = "\<lparr>h_year = year_match, h_text = baidu_text raw, h_wiki_url = None\<rparr>"
    from Cons.IH [OF kept(2)] obtain new where
      new: "events = (acc @ [?e]) @ new"
        "\<forall>e \<in> set new. \<exists>raw \<in> set rest.
          baidu_year lib (case b_year raw of None \<Rightarrow> [] | Some y \<Rightarrow> y) = Inr (Some (h_year e)) \<and>
          h_text e = baidu_text raw \<and> h_wiki_url e = None"
      by blast
    have "\<forall>e \<in> set (?e # new). \<exists>r \<in> set (raw # rest).
          baidu_year lib (case b_year r of None \<Rightarrow> [] | Some y \<Rightarrow> y) = Inr (Some (h_year e)) \<and>
          h_text e = baidu_text r \<and> h_wiki_url e = None"
      using new(2) kept(1) by auto
    with new(1) show ?thesis by (intro exI [of _ "?e # new"]) simp
  qed
qed

lemma wiki_event_Some:
  "wiki_event raw = Some e \<Longrightarrow>
     w_year raw = Some (h_year e) \<and> h_year e \<noteq> 0 \<and>
     h_text e = (case w_text raw of None \<Rightarrow> [] | Some t \<Rightarrow> t)"
  by (auto simp: wiki_event_def Let_def split: option.splits if_splits)

lemma wikimedia_emits:
  assumes "e \<in> set (get_history_today_from_wikimedia now response)"
  shows "\<exists>raws raw. response = Response True (Some (Some raws)) \<and> raw \<in> set raws \<and>
           w_year raw = Some (h_year e) \<and> h_year e \<noteq> 0 \<and>
           h_text e = (case w_text raw of None \<Rightarrow> [] | Some t \<Rightarrow> t)"
proof -
  from assms obtain raws where r: "response = Response True (Some (Some raws))"
    and e: "e \<in> set (List.map_filter wiki_event raws)"
    by (auto simp: get_history_today_from_wikimedia_def
        split: http_response.splits if_splits option.splits)
  from e obtain raw where "raw \<in> set raws" "wiki_event raw = Some e"
    by (auto simp: List.map_filter_def)
  with r wiki_event_Some [of raw e] show ?thesis by blast
qed

subsection \<open>Normalizers on arbitrary JSON\<close>

lemma and_then_Inr_iff:
  "and_then r f = Inr y \<longleftrightarrow> (\<exists>x. r = Inr x \<and> f x = Inr y)"
  by (cases r) (simp_all add: and_then_def)

lemma baidu_year_json_JStr: "baidu_year_json lib (JStr s) = baidu_year lib s"
  by (simp add: baidu_year_json_def baidu_year_def json_contains_marker_def and_then_def
      split: option.splits sum.splits)










subsection \<open>Examples on JSON bodies\<close>







subsection \<open>The typed payloads are the JSON bodies of the provider's shape\<close>

lemma json_keys_distinct:
  "asc ''year'' \<noteq> asc ''title''" "asc ''year'' \<noteq> asc ''desc''" "asc ''title'' \<noteq> asc ''desc''"
  "asc ''title'' \<noteq> asc ''year''" "asc ''desc'' \<noteq> asc ''year''" "asc ''desc'' \<noteq> asc ''title''"
  "asc ''year'' \<noteq> asc ''text''" "asc ''year'' \<noteq> asc ''pages''" "asc ''text'' \<noteq> asc ''pages''"
  "asc ''text'' \<noteq> asc ''year''" "asc ''pages'' \<noteq> asc ''year''" "asc ''pages'' \<noteq> asc ''text''"
  by (simp_all add: asc_def)

lemma baidu_raw_json_year:
  "and_then (py_get (baidu_raw_to_json raw) (asc ''year'') (JStr [])) (baidu_year_json lib)
     = baidu_year lib (case b_year raw of None \<Rightarrow> [] | Some y \<Rightarrow> y)"
  by (simp add: baidu_raw_to_json_def py_get_def and_then_def baidu_year_json_JStr
      json_keys_distinct split: option.splits)

lemma baidu_raw_json_text:
  "baidu_text_json (baidu_raw_to_json raw) = Inr (baidu_text raw)"
  by (simp add: baidu_raw_to_json_def baidu_text_json_def baidu_text_def py_get_def
      and_then_def json_keys_distinct split: option.splits)

lemma baidu_events_loop_json_typed:
  "baidu_events_loop_json lib (map baidu_raw_to_json raws) events
     = baidu_events_loop lib raws events"
  by (induction raws arbitrary: events)
    (simp_all add: baidu_raw_json_year baidu_raw_json_text split: sum.splits option.splits)

lemma wiki_raw_json_url:
  "and_then (py_get (wiki_raw_to_json raw) (asc ''pages'') (JArr [])) wiki_url_json
     = Inr (JStr (case w_pages raw of
                    [] \<Rightarrow> []
                  | page # others \<Rightarrow> (case page of None \<Rightarrow> [] | Some u \<Rightarrow> u)))"
  by (simp add: wiki_raw_to_json_def py_get_def and_then_def wiki_url_json_def py_first_def
      json_keys_distinct split: option.splits list.splits)

lemma wiki_event_json_typed:
  "wiki_event_json (wiki_raw_to_json raw) = Inr (map_option hist_event_to_json (wiki_event raw))"
proof -
  have year: "py_get (wiki_raw_to_json raw) (asc ''year'') JNull
      = Inr (case w_year raw of None \<Rightarrow> JNull | Some y \<Rightarrow> JInt y)"
    by (simp add: wiki_raw_to_json_def py_get_def json_keys_distinct split: option.splits)
  have textv: "py_get (wiki_raw_to_json raw) (asc ''text'') (JStr [])
      = Inr (JStr (case w_text raw of None \<Rightarrow> [] | Some t \<Rightarrow> t))"
    by (simp add: wiki_raw_to_json_def py_get_def json_keys_distinct split: option.splits)
  from wiki_raw_json_url [of raw] obtain pages where
    pages: "py_get (wiki_raw_to_json raw) (asc ''pages'') (JArr []) = Inr pages"
      "wiki_url_json pages = Inr (JStr (case w_pages raw of
                    [] \<Rightarrow> []
                  | page # others \<Rightarrow> (case page of None \<Rightarrow> [] | Some u \<Rightarrow> u)))"
    by (auto simp: and_then_Inr_iff)
  show ?thesis
    by (simp add: wiki_event_json_def year textv pages and_then_def wiki_event_def
        hist_event_to_json_def Let_def split: option.splits)
qed

lemma wiki_events_loop_json_typed:
  "wiki_events_loop_json (map wiki_raw_to_json raws) events
     = Inr (events @ map hist_event_to_json (List.map_filter wiki_event raws))"
  by (induction raws arbitrary: events)
    (simp_all add: wiki_event_json_typed List.map_filter_simps split: option.splits)

lemma wikimedia_json_typed:
  "get_history_today_from_wikimedia_json now (Response ok (map_option wiki_payload_to_json body))
     = map hist_event_to_json (get_history_today_from_wikimedia now (Response ok body))"
  by (simp add: get_history_today_from_wikimedia_json_def get_history_today_from_wikimedia_def
      wiki_payload_to_json_def wiki_events_raw_json_def py_get_def py_iter_def and_then_def
      wiki_events_loop_json_typed List.map_filter_simps split: option.splits)






subsection \<open>Selector\<close>

lemma select_events_Inr:
  assumes "select_events filtered limit draws = Inr selected"
  shows "0 \<le> limit \<and> int (length selected) = min limit (int (length filtered)) \<and>
         mset selected \<subseteq># mset filtered \<and>
         sorted_wrt (\<lambda>a b. h_year b \<le> h_year a) selected"
proof (cases "0 \<le> limit")
  case True
  from select_events_ok [OF True, of filtered draws] assms True show ?thesis by auto
next
  case False
  then have "select_events filtered limit draws = Inl ValueError"
    by (simp add: select_events_negative)
  with assms show ?thesis by simp
qed

lemma history_selection_Some:
  assumes "history_selection lib rand birth_year limit now wiki baidu = Inr (Some selected)"
  shows "filter_events birth_year (dt_year now) (fetch_events lib now wiki baidu) \<noteq> [] \<and>
         select_events (filter_events birth_year (dt_year now) (fetch_events lib now wiki baidu))
           limit (sample_draws rand) = Inr selected"
  using assms by (auto simp: history_selection_def Let_def split: if_splits sum.splits)

lemma set_filter_events: "set (filter_events birth_year current_year events) \<subseteq> set events"
  by (auto simp: filter_events_def Let_def)

lemma get_history_today_of_selection:
  assumes "history_selection lib rand birth_year limit now wiki baidu = Inr (Some selected)"
    and "render_events lib birth_year selected [] = Inr result_lines"
  shows "get_history_today lib rand birth_year limit now wiki baidu
           = history_header @ join [10] result_lines"
  using assms by (simp add: get_history_today_def get_history_today_body_def)

lemma get_history_today_filler:
  assumes "history_selection lib rand birth_year limit now wiki baidu = Inr None \<or>
           (\<exists>e. history_selection lib rand birth_year limit now wiki baidu = Inl e)"
  shows "get_history_today lib rand birth_year limit now wiki baidu
           = random_choice (choice_draw rand) FALLBACK_INTERESTING_FACTS"
  using assms by (auto simp: get_history_today_def get_history_today_body_def)

text \<open>
  C5.  For every non-empty filtered event set and every limit (a number of events, so
  not negative), the selector selects \<open>min limit (length filtered)\<close> events, so never
  more than the limit; they are drawn from the filtered events without replacement (as a
  multiset they are contained in the filtered events); they are in descending order of
  the year.  Where the converter returns on the texts of the filtered events, rendering
  succeeds and the result is the header followed by one line per selected event, in that
  order, each line beginning with the bullet and the year of its event.
\<close>

theorem selector_sample_size_and_order:
  assumes "filtered = filter_events birth_year (dt_year now) (fetch_events lib now wiki baidu)"
    and "filtered \<noteq> []" and "0 \<le> limit"
  shows "\<exists>selected.
      history_selection lib rand birth_year limit now wiki baidu = Inr (Some selected) \<and>
      int (length selected) = min limit (int (length filtered)) \<and>
      int (length selected) \<le> limit \<and>
      mset selected \<subseteq># mset filtered \<and>
      sorted_wrt (\<lambda>a b. h_year b \<le> h_year a) selected \<and>
      ((\<forall>e \<in> set filtered. opencc_convert lib (strip (replace_newlines (h_text e))) \<noteq> None) \<longrightarrow>
         (\<exists>result_lines.
            render_events lib birth_year selected [] = Inr result_lines \<and>
            get_history_today lib rand birth_year limit now wiki baidu
              = history_header @ join [10] result_lines \<and>
            length result_lines = length selected \<and>
            (\<forall>i < length selected.
               render_event lib birth_year (selected ! i) = Inr (result_lines ! i) \<and>
               (\<exists>tail. result_lines ! i
                  = [8226, 32, 42, 42] @ str_int (h_year (selected ! i))
                    @ [24180, 42, 42, 65306] @ tail))))"
proof -
  from select_events_ok [OF assms(3), of filtered "sample_draws rand"] obtain selected where
    sel: "select_events filtered limit (sample_draws rand) = Inr selected"
      "int (length selected) = min limit (int (length filtered))"
      "mset selected \<subseteq># mset filtered"
      "sorted_wrt (\<lambda>a b. h_year b \<le> h_year a) selected"
    by blast
  from assms(1, 2) have ev: "fetch_events lib now wiki baidu \<noteq> []"
    by (auto simp: filter_events_def)
  have hs: "history_selection lib rand birth_year limit now wiki baidu = Inr (Some selected)"
    using assms(1, 2) ev sel(1) by (simp add: history_selection_def Let_def)
  have rendered: "\<exists>result_lines.
            render_events lib birth_year selected [] = Inr result_lines \<and>
            get_history_today lib rand birth_year limit now wiki baidu
              = history_header @ join [10] result_lines \<and>
            length result_lines = length selected \<and>
            (\<forall>i < length selected.
               render_event lib birth_year (selected ! i) = Inr (result_lines ! i) \<and>
               (\<exists>tail. result_lines ! i
                  = [8226, 32, 42, 42] @ str_int (h_year (selected ! i))
                    @ [24180, 42, 42, 65306] @ tail))"
    if conv: "\<forall>e \<in> set filtered. opencc_convert lib (strip (replace_newlines (h_text e))) \<noteq> None"
  proof -
    from set_mset_mono [OF sel(3)] have sub: "set selected \<subseteq> set filtered" by simp
    with conv have csel:
      "\<forall>e \<in> set selected. opencc_convert lib (strip (replace_newlines (h_text e))) \<noteq> None"
      by blast
    from render_events_succeeds [OF csel, of birth_year "[]"] obtain result_lines where
      r: "render_events lib birth_year selected [] = Inr result_lines" by blast
    from render_events_lines [OF r] have len: "length result_lines = length selected"
      and each: "\<forall>i < length selected.
        render_event lib birth_year (selected ! i) = Inr (result_lines ! i)"
      by auto
    have "\<exists>tail. result_lines ! i
                  = [8226, 32, 42, 42] @ str_int (h_year (selected ! i))
                    @ [24180, 42, 42, 65306] @ tail" if i: "i < length selected" for i
    proof -
      from i csel have "opencc_convert lib (strip (replace_newlines (h_text (selected ! i)))) \<noteq> None"
        by simp
      from render_event_succeeds [OF this, of birth_year] each i show ?thesis by auto
    qed
    with each have "\<forall>i < length selected.
               render_event lib birth_year (selected ! i) = Inr (result_lines ! i) \<and>
               (\<exists>tail. result_lines ! i
                  = [8226, 32, 42, 42] @ str_int (h_year (selected ! i))
                    @ [24180, 42, 42, 65306] @ tail)"
      by blast
    with r len get_history_today_of_selection [OF hs r] show ?thesis by blast
  qed
  from sel(2) have "int (length selected) \<le> limit" by simp
  with hs sel rendered show ?thesis by blast
qed

lemma dt_year_example_now: "dt_year example_now = 2025"
  by (simp add: example_now_def)

lemma baidu_four_filtered:
  "filter_events 1999 (dt_year example_now)
     (fetch_events example_lib example_now ConnectionFailed (baidu_on_0807 baidu_four))
   = [\<lparr>h_year = 2005, h_text = asc ''B'', h_wiki_url = None\<rparr>,
      \<lparr>h_year = 2010, h_text = asc ''C'', h_wiki_url = None\<rparr>,
      \<lparr>h_year = 1999, h_text = asc ''A'', h_wiki_url = None\<rparr>]"
  by (simp add: fetch_events_def wiki_failed_events baidu_four_events filter_events_def
      dt_year_example_now Let_def)

lemma sample_pool_two:
  "sample_pool [a, b, c] 2 [2, Suc 0, 0] = [c, b]"
proof -
  have "sample_pool [a, b, c] (Suc (Suc 0)) [2, Suc 0, 0] = [c, b]" by simp
  then show ?thesis by (simp add: numeral_2_eq_2)
qed

lemma baidu_four_selection:
  "history_selection example_lib example_rand 1999 2 example_now ConnectionFailed
     (baidu_on_0807 baidu_four)
   = Inr (Some [\<lparr>h_year = 2010, h_text = asc ''C'', h_wiki_url = None\<rparr>,
                \<lparr>h_year = 1999, h_text = asc ''A'', h_wiki_url = None\<rparr>])"
proof -
  have "fetch_events example_lib example_now ConnectionFailed (baidu_on_0807 baidu_four) \<noteq> []"
    by (simp add: fetch_events_def wiki_failed_events baidu_four_events)
  then show ?thesis
    by (simp add: history_selection_def Let_def baidu_four_filtered select_events_def
        random_sample_def example_rand_def sample_pool_two)
qed

lemma baidu_four_result:
  "get_history_today example_lib example_rand 1999 2 example_now ConnectionFailed
     (baidu_on_0807 baidu_four)
   = history_header
     @ [8226, 32, 42, 42] @ asc ''2010'' @ [24180, 42, 42, 65306] @ asc ''C ''
     @ [65288, 37027, 24180, 25105, 32] @ asc ''11'' @ [32, 23681, 65289] @ asc ''  '' @ [10]
     @ [8226, 32, 42, 42] @ asc ''1999'' @ [24180, 42, 42, 65306] @ asc ''A ''
     @ [65288, 37027, 24180, 25105, 32] @ asc ''0'' @ [32, 23681, 65289] @ asc ''  ''"
proof -
  have r: "render_events example_lib 1999
      [\<lparr>h_year = 2010, h_text = asc ''C'', h_wiki_url = None\<rparr>,
       \<lparr>h_year = 1999, h_text = asc ''A'', h_wiki_url = None\<rparr>] []
     = Inr [[8226, 32, 42, 42] @ asc ''2010'' @ [24180, 42, 42, 65306] @ asc ''C ''
            @ [65288, 37027, 24180, 25105, 32] @ asc ''11'' @ [32, 23681, 65289] @ asc ''  '',
            [8226, 32, 42, 42] @ asc ''1999'' @ [24180, 42, 42, 65306] @ asc ''A ''
            @ [65288, 37027, 24180, 25105, 32] @ asc ''0'' @ [32, 23681, 65289] @ asc ''  '']"
    by (simp add: render_event_def example_lib_def strip_def replace_newlines_def is_space_def
        age_text_def str_int_def digits_of.simps asc_def)
  from get_history_today_of_selection [OF baidu_four_selection r] show ?thesis by simp
qed

theorem selector_sample_size_and_order_witness:
  "filter_events 1999 (dt_year example_now)
     (fetch_events example_lib example_now ConnectionFailed (baidu_on_0807 baidu_four))
   = [\<lparr>h_year = 2005, h_text = asc ''B'', h_wiki_url = None\<rparr>,
      \<lparr>h_year = 2010, h_text = asc ''C'', h_wiki_url = None\<rparr>,
      \<lparr>h_year = 1999, h_text = asc ''A'', h_wiki_url = None\<rparr>] \<and>
   (\<exists>selected result_lines.
      history_selection example_lib example_rand 1999 2 example_now ConnectionFailed
        (baidu_on_0807 baidu_four) = Inr (Some selected) \<and>
      length selected = 2 \<and>
      sorted_wrt (\<lambda>a b. h_year b \<le> h_year a) selected \<and>
      render_events example_lib 1999 selected [] = Inr result_lines \<and>
      length result_lines = 2 \<and>
      get_history_today example_lib example_rand 1999 2 example_now ConnectionFailed
        (baidu_on_0807 baidu_four) = history_header @ join [10] result_lines) \<and>
   history_selection example_lib example_rand 1999 2 example_now ConnectionFailed
     (baidu_on_0807 baidu_four)
   = Inr (Some [\<lparr>h_year = 2010, h_text = asc ''C'', h_wiki_url = None\<rparr>,
                \<lparr>h_year = 1999, h_text = asc ''A'', h_wiki_url = None\<rparr>]) \<and>
   get_history_today example_lib example_rand 1999 2 example_now ConnectionFailed
     (baidu_on_0807 baidu_four)
   = history_header
     @ [8226, 32, 42, 42] @ asc ''2010'' @ [24180, 42, 42, 65306] @ asc ''C ''
     @ [65288, 37027, 24180, 25105, 32] @ asc ''11'' @ [32, 23681, 65289] @ asc ''  '' @ [10]
     @ [8226, 32, 42, 42] @ asc ''1999'' @ [24180, 42, 42, 65306] @ asc ''A ''
     @ [65288, 37027, 24180, 25105, 32] @ asc ''0'' @ [32, 23681, 65289] @ asc ''  ''"
proof -
  let ?filtered = "filter_events 1999 (dt_year example_now)
     (fetch_events example_lib example_now ConnectionFailed (baidu_on_0807 baidu_four))"
  have ne: "?filtered \<noteq> []" and len: "length ?filtered = 3"
    by (simp_all add: baidu_four_filtered)
  have conv: "\<forall>e \<in> set ?filtered.
      opencc_convert example_lib (strip (replace_newlines (h_text e))) \<noteq> None"
    by (simp add: example_lib_def)
  from selector_sample_size_and_order [OF refl ne, of 2 example_rand] conv
  obtain selected result_lines where
    "history_selection example_lib example_rand 1999 2 example_now ConnectionFailed
        (baidu_on_0807 baidu_four) = Inr (Some selected)"
    "int (length selected) = min 2 (int (length ?filtered))"
    "sorted_wrt (\<lambda>a b. h_year b \<le> h_year a) selected"
    "render_events example_lib 1999 selected [] = Inr result_lines"
    "length result_lines = length selected"
    "get_history_today example_lib example_rand 1999 2 example_now ConnectionFailed
        (baidu_on_0807 baidu_four) = history_header @ join [10] result_lines"
    by auto
  then have "\<exists>selected result_lines.
      history_selection example_lib example_rand 1999 2 example_now ConnectionFailed
        (baidu_on_0807 baidu_four) = Inr (Some selected) \<and>
      length selected = 2 \<and>
      sorted_wrt (\<lambda>a b. h_year b \<le> h_year a) selected \<and>
      render_events example_lib 1999 selected [] = Inr result_lines \<and>
      length result_lines = 2 \<and>
      get_history_today example_lib example_rand 1999 2 example_now ConnectionFailed
        (baidu_on_0807 baidu_four) = history_header @ join [10] result_lines"
    by (auto simp: len)
  with baidu_four_filtered baidu_four_selection baidu_four_result show ?thesis by blast
qed

text \<open>
  Outside the range of the limit: for the limit \<open>- 1\<close> \<open>random.sample\<close> raises \<open>ValueError\<close>
  and the result is a filler statement.  The only call of the source passes no limit, so
  the default 3.
\<close>

lemma history_negative_limit_filler:
  "filter_events 1999 (dt_year example_now)
     (fetch_events example_lib example_now ConnectionFailed (baidu_on_0807 baidu_one))
   = [\<lparr>h_year = 1999, h_text = asc ''Event A'', h_wiki_url = None\<rparr>] \<and>
   history_selection example_lib example_rand 1999 (- 1) example_now ConnectionFailed
     (baidu_on_0807 baidu_one) = Inl ValueError \<and>
   get_history_today example_lib example_rand 1999 (- 1) example_now ConnectionFailed
     (baidu_on_0807 baidu_one) = FALLBACK_INTERESTING_FACTS ! 3"
proof -
  have ev: "fetch_events example_lib example_now ConnectionFailed (baidu_on_0807 baidu_one)
     = [\<lparr>h_year = 1999, h_text = asc ''Event A'', h_wiki_url = None\<rparr>]"
    by (simp add: fetch_events_def wiki_failed_events baidu_one_events)
  have f: "filter_events 1999 (dt_year example_now)
     (fetch_events example_lib example_now ConnectionFailed (baidu_on_0807 baidu_one))
   = [\<lparr>h_year = 1999, h_text = asc ''Event A'', h_wiki_url = None\<rparr>]"
    by (simp add: ev filter_events_def dt_year_example_now Let_def)
  have ne: "fetch_events example_lib example_now ConnectionFailed (baidu_on_0807 baidu_one) \<noteq> []"
    by (simp add: ev)
  have hs: "history_selection example_lib example_rand 1999 (- 1) example_now ConnectionFailed
     (baidu_on_0807 baidu_one) = Inl ValueError"
    using ne by (simp add: history_selection_def Let_def f select_events_negative)
  have "get_history_today example_lib example_rand 1999 (- 1) example_now ConnectionFailed
     (baidu_on_0807 baidu_one) = random_choice (choice_draw example_rand) FALLBACK_INTERESTING_FACTS"
    using hs by (intro get_history_today_filler) simp
  then have "get_history_today example_lib example_rand 1999 (- 1) example_now ConnectionFailed
     (baidu_on_0807 baidu_one) = FALLBACK_INTERESTING_FACTS ! 3"
    by (simp add: random_choice_def length_FALLBACK example_rand_def)
  with f hs show ?thesis by simp
qed

text \<open>
  C6.  The selector first keeps exactly the events with
  \<open>birth_year \<le> year \<le> current_year\<close>; if there is none it keeps exactly the events with a
  positive year; the selected events are among the kept ones; and if no event is kept
  the result is an element of the pool of filler statements.
\<close>

theorem selector_filter_relax_filler:
  "filter_events birth_year current_year events =
     (if \<exists>e \<in> set events. birth_year \<le> h_year e \<and> h_year e \<le> current_year
      then filter (\<lambda>e. birth_year \<le> h_year e \<and> h_year e \<le> current_year) events
      else filter (\<lambda>e. 0 < h_year e) events) \<and>
   (\<forall>selected.
      history_selection lib rand birth_year limit now wiki baidu = Inr (Some selected) \<longrightarrow>
      set selected \<subseteq>
        set (filter_events birth_year (dt_year now) (fetch_events lib now wiki baidu))) \<and>
   (filter_events birth_year (dt_year now) (fetch_events lib now wiki baidu) = [] \<longrightarrow>
      get_history_today lib rand birth_year limit now wiki baidu
        \<in> set FALLBACK_INTERESTING_FACTS)"
proof -
  have "filter_events birth_year current_year events =
     (if \<exists>e \<in> set events. birth_year \<le> h_year e \<and> h_year e \<le> current_year
      then filter (\<lambda>e. birth_year \<le> h_year e \<and> h_year e \<le> current_year) events
      else filter (\<lambda>e. 0 < h_year e) events)"
    by (auto simp: filter_events_def Let_def filter_empty_conv)
  moreover have "set selected \<subseteq>
        set (filter_events birth_year (dt_year now) (fetch_events lib now wiki baidu))"
    if "history_selection lib rand birth_year limit now wiki baidu = Inr (Some selected)"
    for selected
  proof -
    from history_selection_Some [OF that] have
      "select_events (filter_events birth_year (dt_year now) (fetch_events lib now wiki baidu))
           limit (sample_draws rand) = Inr selected" by simp
    from select_events_Inr [OF this] show ?thesis
      by (auto dest: mset_subset_eqD)
  qed
  moreover have "get_history_today lib rand birth_year limit now wiki baidu
        \<in> set FALLBACK_INTERESTING_FACTS"
    if "filter_events birth_year (dt_year now) (fetch_events lib now wiki baidu) = []"
  proof -
    from that have "history_selection lib rand birth_year limit now wiki baidu = Inr None"
      by (simp add: history_selection_def Let_def)
    then have "get_history_today lib rand birth_year limit now wiki baidu
        = random_choice (choice_draw rand) FALLBACK_INTERESTING_FACTS"
      by (intro get_history_today_filler) simp
    then show ?thesis by (simp add: random_choice_FALLBACK)
  qed
  ultimately show ?thesis by blast
qed

lemma baidu_bce_filtered:
  "filter_events 1999 (dt_year example_now)
     (fetch_events example_lib example_now ConnectionFailed (baidu_on_0807 baidu_bce)) = []"
  by (simp add: fetch_events_def wiki_failed_events baidu_bce_events filter_events_def
      dt_year_example_now Let_def)

theorem selector_filter_relax_filler_witness:
  "filter_events 1999 (dt_year example_now)
     (fetch_events example_lib example_now ConnectionFailed (baidu_on_0807 baidu_bce)) = [] \<and>
   get_history_today example_lib example_rand 1999 3 example_now ConnectionFailed
     (baidu_on_0807 baidu_bce) \<in> set FALLBACK_INTERESTING_FACTS \<and>
   history_selection example_lib example_rand 1999 2 example_now ConnectionFailed
     (baidu_on_0807 baidu_four)
   = Inr (Some [\<lparr>h_year = 2010, h_text = asc ''C'', h_wiki_url = None\<rparr>,
                \<lparr>h_year = 1999, h_text = asc ''A'', h_wiki_url = None\<rparr>]) \<and>
   filter_events 1999 2025
     [\<lparr>h_year = 1800, h_text = [], h_wiki_url = None\<rparr>,
      \<lparr>h_year = - 5, h_text = [], h_wiki_url = None\<rparr>]
   = [\<lparr>h_year = 1800, h_text = [], h_wiki_url = None\<rparr>]"
proof -
  from selector_filter_relax_filler
    [of 1999 2025 "[]" example_lib example_rand 3 example_now ConnectionFailed
        "baidu_on_0807 baidu_bce"]
    baidu_bce_filtered
  have "get_history_today example_lib example_rand 1999 3 example_now ConnectionFailed
     (baidu_on_0807 baidu_bce) \<in> set FALLBACK_INTERESTING_FACTS"
    by blast
  moreover have "filter_events 1999 2025
     [\<lparr>h_year = 1800, h_text = [], h_wiki_url = None\<rparr>,
      \<lparr>h_year = - 5, h_text = [], h_wiki_url = None\<rparr>]
   = [\<lparr>h_year = 1800, h_text = [], h_wiki_url = None\<rparr>]"
    by (simp add: filter_events_def)
  ultimately show ?thesis
    using baidu_bce_filtered baidu_four_selection by blast
qed

text \<open>
  C7.  Whenever the provider tried first (Wikimedia) yields no event, because it failed
  or returned none, and the second provider (Baidu) yields events, the selector works on
  the second provider's events only: every selected event is one of them, and the
  result is either the rendering of such events or a filler statement.
\<close>

theorem selector_uses_secondary_when_primary_empty:
  assumes "get_history_today_from_wikimedia now wiki = []"
    and "get_history_today_from_baidu lib now baidu \<noteq> []"
  shows "fetch_events lib now wiki baidu = get_history_today_from_baidu lib now baidu \<and>
     (\<forall>selected.
        history_selection lib rand birth_year limit now wiki baidu = Inr (Some selected) \<longrightarrow>
        mset selected \<subseteq># mset (get_history_today_from_baidu lib now baidu)) \<and>
     (get_history_today lib rand birth_year limit now wiki baidu \<in> set FALLBACK_INTERESTING_FACTS \<or>
      (\<exists>selected result_lines.
         set selected \<subseteq> set (get_history_today_from_baidu lib now baidu) \<and>
         render_events lib birth_year selected [] = Inr result_lines \<and>
         get_history_today lib rand birth_year limit now wiki baidu
           = history_header @ join [10] result_lines))"
proof -
  let ?b = "get_history_today_from_baidu lib now baidu"
  let ?hs = "history_selection lib rand birth_year limit now wiki baidu"
  have fe: "fetch_events lib now wiki baidu = ?b"
    using assms(1) by (simp add: fetch_events_def)
  have sub: "mset selected \<subseteq># mset ?b" if "?hs = Inr (Some selected)" for selected
  proof -
    from history_selection_Some [OF that] have
      "select_events (filter_events birth_year (dt_year now) ?b) limit (sample_draws rand)
         = Inr selected" by (simp add: fe)
    from select_events_Inr [OF this] have
      "mset selected \<subseteq># mset (filter_events birth_year (dt_year now) ?b)" by simp
    also have "\<dots> \<subseteq># mset ?b"
      by (simp add: filter_events_def Let_def)
    finally show ?thesis .
  qed
  have out: "get_history_today lib rand birth_year limit now wiki baidu \<in> set FALLBACK_INTERESTING_FACTS \<or>
      (\<exists>selected result_lines.
         set selected \<subseteq> set ?b \<and>
         render_events lib birth_year selected [] = Inr result_lines \<and>
         get_history_today lib rand birth_year limit now wiki baidu
           = history_header @ join [10] result_lines)"
  proof (cases ?hs)
    case (Inl e)
    then have "get_history_today lib rand birth_year limit now wiki baidu
        = random_choice (choice_draw rand) FALLBACK_INTERESTING_FACTS"
      by (intro get_history_today_filler) simp
    then show ?thesis by (simp add: random_choice_FALLBACK)
  next
    case (Inr sel)
    show ?thesis
    proof (cases sel)
      case None
      with Inr have "get_history_today lib rand birth_year limit now wiki baidu
        = random_choice (choice_draw rand) FALLBACK_INTERESTING_FACTS"
        by (intro get_history_today_filler) simp
      then show ?thesis by (simp add: random_choice_FALLBACK)
    next
      case (Some selected)
      with Inr have hs: "?hs = Inr (Some selected)" by simp
      from sub [OF hs] have s: "set selected \<subseteq> set ?b" by (auto dest: mset_subset_eqD)
      show ?thesis
      proof (cases "render_events lib birth_year selected []")
        case (Inl e)
        with hs have "get_history_today lib rand birth_year limit now wiki baidu
          = random_choice (choice_draw rand) FALLBACK_INTERESTING_FACTS"
          by (simp add: get_history_today_def get_history_today_body_def)
        then show ?thesis by (simp add: random_choice_FALLBACK)
      next
        case (Inr result_lines)
        from get_history_today_of_selection [OF hs Inr] s Inr show ?thesis by blast
      qed
    qed
  qed
  from fe sub out show ?thesis by blast
qed

lemma baidu_one_result:
  "get_history_today example_lib example_rand 1999 3 example_now ConnectionFailed
     (baidu_on_0807 baidu_one)
   = history_header @ [8226, 32, 42, 42] @ asc ''1999'' @ [24180, 42, 42, 65306]
     @ asc ''Event A '' @ [65288, 37027, 24180, 25105, 32] @ asc ''0'' @ [32, 23681, 65289]
     @ asc ''  ''"
proof -
  have ev: "fetch_events example_lib example_now ConnectionFailed (baidu_on_0807 baidu_one)
     = [\<lparr>h_year = 1999, h_text = asc ''Event A'', h_wiki_url = None\<rparr>]"
    by (simp add: fetch_events_def wiki_failed_events baidu_one_events)
  have f: "filter_events 1999 (dt_year example_now)
     [\<lparr>h_year = 1999, h_text = asc ''Event A'', h_wiki_url = None\<rparr>]
   = [\<lparr>h_year = 1999, h_text = asc ''Event A'', h_wiki_url = None\<rparr>]"
    by (simp add: filter_events_def dt_year_example_now)
  have s: "history_selection example_lib example_rand 1999 3 example_now ConnectionFailed
     (baidu_on_0807 baidu_one)
     = Inr (Some [\<lparr>h_year = 1999, h_text = asc ''Event A'', h_wiki_url = None\<rparr>])"
    by (simp add: history_selection_def Let_def ev f select_events_def random_sample_def
        example_rand_def)
  have r: "render_events example_lib 1999
      [\<lparr>h_year = 1999, h_text = asc ''Event A'', h_wiki_url = None\<rparr>] []
     = Inr [[8226, 32, 42, 42] @ asc ''1999'' @ [24180, 42, 42, 65306]
     @ asc ''Event A '' @ [65288, 37027, 24180, 25105, 32] @ asc ''0'' @ [32, 23681, 65289]
     @ asc ''  '']"
    by (simp add: render_event_def example_lib_def strip_def replace_newlines_def is_space_def
        age_text_def str_int_def digits_of.simps asc_def)
  from get_history_today_of_selection [OF s r] show ?thesis by simp
qed

theorem selector_uses_secondary_when_primary_empty_witness:
  "get_history_today_from_wikimedia example_now ConnectionFailed = [] \<and>
   get_history_today_from_baidu example_lib example_now (baidu_on_0807 baidu_one)
     = [\<lparr>h_year = 1999, h_text = asc ''Event A'', h_wiki_url = None\<rparr>] \<and>
   fetch_events example_lib example_now ConnectionFailed (baidu_on_0807 baidu_one)
     = [\<lparr>h_year = 1999, h_text = asc ''Event A'', h_wiki_url = None\<rparr>] \<and>
   get_history_today example_lib example_rand 1999 3 example_now ConnectionFailed
     (baidu_on_0807 baidu_one)
   = history_header @ [8226, 32, 42, 42] @ asc ''1999'' @ [24180, 42, 42, 65306]
     @ asc ''Event A '' @ [65288, 37027, 24180, 25105, 32] @ asc ''0'' @ [32, 23681, 65289]
     @ asc ''  ''"
proof -
  have w: "get_history_today_from_wikimedia example_now ConnectionFailed = []"
    by (simp add: wiki_failed_events)
  have b: "get_history_today_from_baidu example_lib example_now (baidu_on_0807 baidu_one) \<noteq> []"
    by (simp add: baidu_one_events)
  from selector_uses_secondary_when_primary_empty [OF w b, of example_rand 1999 3]
  have "fetch_events example_lib example_now ConnectionFailed (baidu_on_0807 baidu_one)
     = get_history_today_from_baidu example_lib example_now (baidu_on_0807 baidu_one)"
    by blast
  with w baidu_one_events baidu_one_result show ?thesis by simp
qed




end
